theory Spec2Isabelle
  imports Main "HOL-Library.Multiset"
begin

section \<open>Data model (src/types/game.types.ts)\<close>

datatype Suit = hearts | diamonds | clubs | spades

datatype Rank = rA | r2 | r3 | r4 | r5 | r6 | r7 | r8 | r9 | r10 | rJ | rQ | rK

datatype CardColor = red | black

datatype MatchType = mt_color | mt_rank | mt_suit

datatype BoardSize = b4x4 | b4x6 | b6x6

datatype GameMode = gm_ai | gm_local_multiplayer | gm_ai_vs_ai

datatype AIDifficulty = easy | medium | hard | expert

datatype GameStatus = in_setup | playing | paused | finished

datatype PlayerType = human | ai

text \<open>
  The face of a card is what \<open>generateBaseCard\<close> and \<open>generateMatchingCard\<close> return
  (\<open>Omit<Card, 'id' | 'position' | 'isFlipped' | 'isMatched'>\<close>); a \<open>Card\<close> extends it.
  The field \<open>id\<close> is called \<open>card_id\<close> here, \<open>id\<close> being the identity function of HOL.
\<close>

record CardFace =
  suit :: Suit
  rank :: Rank
  color :: CardColor

record Card = CardFace +
  card_id :: string
  position :: int
  isFlipped :: bool
  isMatched :: bool

record Player =
  player_id :: string
  name :: string
  ptype :: PlayerType
  score :: int
  matches :: "Card list list"
  isCurrentPlayer :: bool
  aiDifficulty :: "AIDifficulty option"

record Move =
  playerId :: string
  cardIds :: "string list"
  timestamp :: int
  isMatch :: bool

datatype AnimationSpeed = slow | normal | fast

datatype Theme = light | dark | minimalist | cyberpunk | neon | forest

datatype CardTheme = classic | modern | minimal

record GameSettings =
  soundEnabled :: bool
  animationSpeed :: AnimationSpeed
  theme :: Theme
  showTimer :: bool
  hintsEnabled :: bool
  cardTheme :: CardTheme
  turnTimeLimit :: "int option"

record GameState =
  gameMode :: GameMode
  matchType :: MatchType
  boardSize :: BoardSize
  currentPlayer :: string
  players :: "Player list"
  cards :: "Card list"
  flippedCards :: "Card list"
  matchedPairs :: "Card list list"
  gameStatus :: GameStatus
  turnStartTime :: "int option"
  gameStartTime :: "int option"
  moveHistory :: "Move list"
  settings :: GameSettings

section \<open>Randomness and text\<close>

text \<open>
  \<open>Math.random()\<close> is an oracle: a list of draws consumed from the left, a draw of the
  exhausted list being 0. A draw \<open>d\<close> is read in the two ways the code uses a random
  number: \<open>Math.floor(Math.random() * n)\<close> is \<open>d mod n\<close>, some index below \<open>n\<close>
  (and 0 when \<open>n = 0\<close>), and a comparison of \<open>Math.random()\<close> with a probability is
  a comparison of \<open>d mod 100\<close> with that probability in percent.
\<close>

type_synonym rand = "nat list"

fun draw :: "rand \<Rightarrow> nat \<times> rand" where
  "draw [] = (0, [])"
| "draw (d # ds) = (d, ds)"

definition randomIndex :: "nat \<Rightarrow> nat \<Rightarrow> nat" where
  "randomIndex d n = (if n = 0 then 0 else d mod n)"

definition randomPercent :: "nat \<Rightarrow> nat" where
  "randomPercent d = d mod 100"

text \<open>The decimal text of a number, as a template literal prints it.\<close>

definition digit_char :: "nat \<Rightarrow> char" where
  "digit_char d = char_of (48 + d)"

fun string_of_nat :: "nat \<Rightarrow> string" where
  "string_of_nat n =
     (if n < 10 then [digit_char n] else string_of_nat (n div 10) @ [digit_char (n mod 10)])"

declare string_of_nat.simps [simp del]

section \<open>Cards (src/utils/cardUtils.ts)\<close>

record BoardDimensions =
  rows :: nat
  cols :: nat
  total :: nat

fun getBoardDimensions :: "BoardSize \<Rightarrow> BoardDimensions" where
  "getBoardDimensions b4x4 = \<lparr>rows = 4, cols = 4, total = 16\<rparr>"
| "getBoardDimensions b4x6 = \<lparr>rows = 4, cols = 6, total = 24\<rparr>"
| "getBoardDimensions b6x6 = \<lparr>rows = 6, cols = 6, total = 36\<rparr>"

fun cardsMatch :: "('a CardFace_scheme) \<Rightarrow> ('b CardFace_scheme) \<Rightarrow> MatchType \<Rightarrow> bool" where
  "cardsMatch card1 card2 mt_color = (color card1 = color card2)"
| "cardsMatch card1 card2 mt_rank = (rank card1 = rank card2)"
| "cardsMatch card1 card2 mt_suit = (suit card1 = suit card2)"

definition suits :: "Suit list" where
  "suits = [hearts, diamonds, clubs, spades]"

definition ranks :: "Rank list" where
  "ranks = [rA, r2, r3, r4, r5, r6, r7, r8, r9, r10, rJ, rQ, rK]"

definition getCardColor :: "Suit \<Rightarrow> CardColor" where
  "getCardColor s = (if s = hearts \<or> s = diamonds then red else black)"

definition generateBaseCard :: "nat \<Rightarrow> MatchType \<Rightarrow> CardFace" where
  "generateBaseCard index mt =
     (let suitIndex = index mod length suits;
          rankIndex = (index div length suits) mod length ranks;
          s = suits ! suitIndex;
          r = ranks ! rankIndex;
          c = (if s = hearts \<or> s = diamonds then red else black)
      in \<lparr>suit = s, rank = r, color = c\<rparr>)"

text \<open>
  \<open>xs[i] || dflt\<close>: the element, or the default where the index is out of range (the
  elements here are never falsy).
\<close>

definition pickOr :: "'a list \<Rightarrow> nat \<Rightarrow> 'a \<Rightarrow> 'a" where
  "pickOr xs i dflt = (if i < length xs then xs ! i else dflt)"

text \<open>The draw \<open>d\<close> is the one call of \<open>Math.random()\<close> each branch makes.\<close>

fun generateMatchingCard :: "CardFace \<Rightarrow> MatchType \<Rightarrow> nat \<Rightarrow> CardFace" where
  "generateMatchingCard baseCard mt_color d =
     (let samColorSuits = filter (\<lambda>s. getCardColor s = color baseCard \<and> s \<noteq> suit baseCard) suits;
          newSuit = pickOr samColorSuits (randomIndex d (length samColorSuits)) (suit baseCard)
      in baseCard\<lparr>suit := newSuit\<rparr>)"
| "generateMatchingCard baseCard mt_rank d =
     (let differentSuits = filter (\<lambda>s. s \<noteq> suit baseCard) suits;
          newSuit = pickOr differentSuits (randomIndex d (length differentSuits)) (suits ! 0)
      in \<lparr>suit = newSuit, rank = rank baseCard, color = getCardColor newSuit\<rparr>)"
| "generateMatchingCard baseCard mt_suit d =
     (let differentRanks = filter (\<lambda>r. r \<noteq> rank baseCard) ranks;
          newRank = pickOr differentRanks (randomIndex d (length differentRanks)) (ranks ! 0)
      in \<lparr>suit = suit baseCard, rank = newRank, color = color baseCard\<rparr>)"

definition mkCard :: "CardFace \<Rightarrow> string \<Rightarrow> int \<Rightarrow> Card" where
  "mkCard f i p =
     \<lparr>suit = suit f, rank = rank f, color = color f,
      card_id = i, position = p, isFlipped = False, isMatched = False\<rparr>"

text \<open>
  The loop of \<open>generateGameCards\<close>: \<open>k\<close> iterations are left, \<open>i\<close> is the loop index,
  \<open>cardId\<close> the counter of the ids and \<open>acc\<close> the array built so far.
\<close>

fun generatePairs ::
  "nat \<Rightarrow> nat \<Rightarrow> nat \<Rightarrow> MatchType \<Rightarrow> rand \<Rightarrow> Card list \<Rightarrow> Card list \<times> rand" where
  "generatePairs 0 i cardId mt rs acc = (acc, rs)"
| "generatePairs (Suc k) i cardId mt rs acc =
     (let baseCard = generateBaseCard i mt;
          (d, rs') = draw rs;
          pair = generateMatchingCard baseCard mt d;
          acc1 = acc @ [mkCard baseCard (''card-'' @ string_of_nat cardId) (int (length acc))];
          acc2 = acc1 @ [mkCard pair (''card-'' @ string_of_nat (cardId + 1)) (int (length acc1))]
      in generatePairs k (Suc i) (cardId + 2) mt rs' acc2)"

definition swap :: "nat \<Rightarrow> nat \<Rightarrow> 'a list \<Rightarrow> 'a list" where
  "swap i j xs = xs[i := xs ! j, j := xs ! i]"

text \<open>The loop of \<open>shuffleArray\<close>, \<open>i\<close> running from \<open>length - 1\<close> down to 1.\<close>

fun shuffleLoop :: "nat \<Rightarrow> 'a list \<Rightarrow> rand \<Rightarrow> 'a list \<times> rand" where
  "shuffleLoop 0 xs rs = (xs, rs)"
| "shuffleLoop (Suc i) xs rs =
     (let (d, rs') = draw rs;
          j = randomIndex d (Suc i + 1)
      in shuffleLoop i (swap (Suc i) j xs) rs')"

definition shuffleArray :: "'a list \<Rightarrow> rand \<Rightarrow> 'a list \<times> rand" where
  "shuffleArray array rs = shuffleLoop (length array - 1) array rs"

definition reposition :: "Card list \<Rightarrow> Card list" where
  "reposition cs = map (\<lambda>(card, index). card\<lparr>position := int index\<rparr>) (zip cs [0..<length cs])"

definition generateGameCards :: "BoardSize \<Rightarrow> MatchType \<Rightarrow> rand \<Rightarrow> Card list \<times> rand" where
  "generateGameCards bs mt rs =
     (let totalCards = total (getBoardDimensions bs);
          numPairs = totalCards div 2;
          (cs, rs1) = generatePairs numPairs 0 0 mt rs [];
          (shuffled, rs2) = shuffleArray cs rs1
      in (reposition shuffled, rs2))"

definition resetFlippedCards :: "Card list \<Rightarrow> Card list" where
  "resetFlippedCards cs =
     map (\<lambda>card. if isFlipped card \<and> \<not> isMatched card then card\<lparr>isFlipped := False\<rparr> else card) cs"

section \<open>The game state machine (src/utils/gameLogic.ts)\<close>

text \<open>
  \<open>Date.now()\<close> is a parameter of every function that reads the clock, one parameter for
  each read. A \<open>TypeError\<close> is what reading \<open>.id\<close> of \<open>undefined\<close> throws.
\<close>

datatype error = TypeError

fun findIndex :: "('a \<Rightarrow> bool) \<Rightarrow> 'a list \<Rightarrow> int" where
  "findIndex P [] = - 1"
| "findIndex P (x # xs) =
     (if P x then 0 else (let r = findIndex P xs in if r = - 1 then - 1 else r + 1))"

definition difficultyText :: "AIDifficulty option \<Rightarrow> string" where
  "difficultyText d = (case d of None \<Rightarrow> ''undefined'' | Some easy \<Rightarrow> ''easy''
     | Some medium \<Rightarrow> ''medium'' | Some hard \<Rightarrow> ''hard'' | Some expert \<Rightarrow> ''expert'')"

definition initialPlayers ::
  "GameMode \<Rightarrow> string \<Rightarrow> string option \<Rightarrow> AIDifficulty option \<Rightarrow> AIDifficulty option \<Rightarrow> Player list" where
  "initialPlayers gm player1Name player2Name aiDiff ai2Diff =
     [\<lparr>player_id = (if gm = gm_ai_vs_ai then ''ai1'' else ''player1''),
       name = player1Name,
       ptype = (if gm = gm_ai_vs_ai then ai else human),
       score = 0, matches = [], isCurrentPlayer = True,
       aiDifficulty = (if gm = gm_ai_vs_ai then aiDiff else None)\<rparr>] @
     (case gm of
        gm_ai \<Rightarrow>
          [\<lparr>player_id = ''ai'', name = ''AI ('' @ difficultyText aiDiff @ '')'', ptype = ai,
            score = 0, matches = [], isCurrentPlayer = False, aiDifficulty = aiDiff\<rparr>]
      | gm_ai_vs_ai \<Rightarrow>
          [\<lparr>player_id = ''ai2'', name = ''AI 2 ('' @ difficultyText ai2Diff @ '')'', ptype = ai,
            score = 0, matches = [], isCurrentPlayer = False, aiDifficulty = ai2Diff\<rparr>]
      | gm_local_multiplayer \<Rightarrow>
          [\<lparr>player_id = ''player2'',
            name = (case player2Name of None \<Rightarrow> ''Player 2''
                    | Some n \<Rightarrow> if n = [] then ''Player 2'' else n),
            ptype = human, score = 0, matches = [], isCurrentPlayer = False,
            aiDifficulty = None\<rparr>])"

definition initializeGame ::
  "GameMode \<Rightarrow> MatchType \<Rightarrow> BoardSize \<Rightarrow> string \<Rightarrow> string option \<Rightarrow> AIDifficulty option \<Rightarrow>
   AIDifficulty option \<Rightarrow> rand \<Rightarrow> int \<Rightarrow> int \<Rightarrow> GameState" where
  "initializeGame gm mt bs player1Name player2Name aiDiff ai2Diff rs now1 now2 =
     \<lparr>gameMode = gm, matchType = mt, boardSize = bs,
      currentPlayer = (if gm = gm_ai_vs_ai then ''ai1'' else ''player1''),
      players = initialPlayers gm player1Name player2Name aiDiff ai2Diff,
      cards = fst (generateGameCards bs mt rs),
      flippedCards = [], matchedPairs = [], gameStatus = playing,
      turnStartTime = Some now1, gameStartTime = Some now2, moveHistory = [],
      settings = \<lparr>soundEnabled = True, animationSpeed = normal, theme = dark, showTimer = True,
        hintsEnabled = (gm = gm_local_multiplayer), cardTheme = classic,
        turnTimeLimit = None\<rparr>\<rparr>"

text \<open>
  The index is a JavaScript number, here an integer. \<open>!card.id\<close> holds of the empty
  string; the array holds no \<open>undefined\<close>, so \<open>!card\<close> never holds in bounds.
\<close>

definition canFlipCard :: "GameState \<Rightarrow> int \<Rightarrow> bool" where
  "canFlipCard gs cardIndex =
     (if cardIndex < 0 \<or> cardIndex \<ge> int (length (cards gs)) then False
      else let card = cards gs ! nat cardIndex in
        if card_id card = [] then False
        else gameStatus gs = playing \<and> \<not> isFlipped card \<and> \<not> isMatched card \<and>
             length (flippedCards gs) < 2)"

definition getNextPlayer :: "GameState \<Rightarrow> error + string" where
  "getNextPlayer gs =
     (let currentIndex = findIndex (\<lambda>p. player_id p = currentPlayer gs) (players gs) in
      if players gs = [] then Inl TypeError
      else Inr (player_id (players gs ! nat ((currentIndex + 1) mod int (length (players gs))))))"

definition isGameFinished :: "GameState \<Rightarrow> bool" where
  "isGameFinished gs = list_all isMatched (cards gs)"

definition markMatched :: "Card \<Rightarrow> Card \<Rightarrow> Card list \<Rightarrow> Card list" where
  "markMatched card1 card2 cs =
     map (\<lambda>card.
        if card_id card = [] \<or> card_id card1 = [] \<or> card_id card2 = [] then card
        else if card_id card = card_id card1 \<or> card_id card = card_id card2
             then card\<lparr>isMatched := True, isFlipped := True\<rparr>
             else card) cs"

definition creditPlayer :: "string \<Rightarrow> Card \<Rightarrow> Card \<Rightarrow> Player list \<Rightarrow> Player list" where
  "creditPlayer current card1 card2 ps =
     (let playerIndex = findIndex (\<lambda>p. player_id p = current) ps in
      if playerIndex \<noteq> - 1
      then ps[nat playerIndex := (ps ! nat playerIndex)
             \<lparr>score := score (ps ! nat playerIndex) + 1,
              matches := matches (ps ! nat playerIndex) @ [[card1, card2]]\<rparr>]
      else ps)"

definition processCardPair :: "int \<Rightarrow> int \<Rightarrow> GameState \<Rightarrow> error + GameState" where
  "processCardPair now1 now2 gs =
     (case flippedCards gs of
        [card1, card2] \<Rightarrow>
          if card_id card1 = [] \<or> card_id card2 = [] then Inr gs
          else
            let isMatch' = cardsMatch card1 card2 (matchType gs);
                move = \<lparr>playerId = currentPlayer gs, cardIds = [card_id card1, card_id card2],
                        timestamp = now1, isMatch = isMatch'\<rparr>;
                newCards = (if isMatch' then markMatched card1 card2 (cards gs) else cards gs);
                newPlayers = (if isMatch' then creditPlayer (currentPlayer gs) card1 card2 (players gs)
                              else players gs);
                newMatchedPairs = (if isMatch' then matchedPairs gs @ [[card1, card2]]
                                   else matchedPairs gs)
            in (case (if isMatch' then Inr (currentPlayer gs)
                     else if gameMode gs = gm_ai_vs_ai then Inr (currentPlayer gs)
                     else getNextPlayer gs) of
                 Inl e \<Rightarrow> Inl e
               | Inr next \<Rightarrow>
                   let newGameState = gs\<lparr>cards := newCards,
                         flippedCards := (if isMatch' then [] else flippedCards gs),
                         players := newPlayers, matchedPairs := newMatchedPairs,
                         moveHistory := moveHistory gs @ [move],
                         currentPlayer := next, turnStartTime := Some now2\<rparr>
                   in if isGameFinished newGameState
                      then Inr (newGameState\<lparr>gameStatus := finished\<rparr>)
                      else Inr newGameState)
      | _ \<Rightarrow> Inr gs)"

definition handleCardFlip :: "int \<Rightarrow> int \<Rightarrow> GameState \<Rightarrow> int \<Rightarrow> error + GameState" where
  "handleCardFlip now1 now2 gs cardIndex =
     (if \<not> canFlipCard gs cardIndex then Inr gs
      else
        let i = nat cardIndex in
        if card_id (cards gs ! i) = [] then Inr gs
        else
          let flipped = (cards gs ! i)\<lparr>isFlipped := True\<rparr>;
              newCards = (cards gs)[i := flipped];
              newFlippedCards = flippedCards gs @ [flipped];
              newGameState = gs\<lparr>cards := newCards, flippedCards := newFlippedCards\<rparr>
          in if length newFlippedCards = 2 then processCardPair now1 now2 newGameState
             else Inr newGameState)"

text \<open>The state \<open>resetFlippedCardsWithDelay\<close> resolves to, once its timer has run.\<close>

definition resetFlippedCardsWithDelay :: "GameState \<Rightarrow> GameState" where
  "resetFlippedCardsWithDelay gs = gs\<lparr>cards := resetFlippedCards (cards gs), flippedCards := []\<rparr>"

definition toggleGamePause :: "int \<Rightarrow> GameState \<Rightarrow> GameState" where
  "toggleGamePause now gs =
     (let newStatus = (if gameStatus gs = paused then playing else paused) in
      gs\<lparr>gameStatus := newStatus,
         turnStartTime := (if newStatus = playing then Some now else turnStartTime gs)\<rparr>)"

text \<open>
  The two loops of \<open>getHint\<close>: for each card of \<open>unmatched\<close> in order, the first later card
  that matches it.
\<close>

fun findHintPair :: "Card list \<Rightarrow> MatchType \<Rightarrow> (int \<times> int) option" where
  "findHintPair [] mt = None"
| "findHintPair (c # cs) mt =
     (case find (\<lambda>d. cardsMatch c d mt) cs of
        Some d \<Rightarrow> Some (position c, position d)
      | None \<Rightarrow> findHintPair cs mt)"

definition getHint :: "GameState \<Rightarrow> (int \<times> int) option" where
  "getHint gs =
     (if \<not> hintsEnabled (settings gs) then None
      else
        let unmatched = filter (\<lambda>card. \<not> isMatched card \<and> \<not> isFlipped card) (cards gs)
        in findHintPair unmatched (matchType gs))"

section \<open>The mismatch resets and the pause of the hook (src/hooks/useGameLogic.ts)\<close>

text \<open>The mapping both timers of the hook run over the cards after a mismatch.\<close>

definition hookResetCards :: "Card list \<Rightarrow> Card list" where
  "hookResetCards cs =
     map (\<lambda>card.
        if card_id card = [] then card
        else if isMatched card then card
        else if isFlipped card \<and> \<not> isMatched card then card\<lparr>isFlipped := False\<rparr>
        else card) cs"

text \<open>The reset of \<open>flipCard\<close>, after a mismatch of a human player.\<close>

definition flipCardReset :: "GameState \<Rightarrow> GameState" where
  "flipCardReset gs = gs\<lparr>flippedCards := [], cards := hookResetCards (cards gs)\<rparr>"

text \<open>The reset of \<open>scheduleAIMove\<close>, after a mismatch of an AI player.\<close>

definition scheduleAIMoveReset :: "GameState \<Rightarrow> GameState" where
  "scheduleAIMoveReset gs =
     (let nextPlayer =
        (if gameMode gs = gm_ai_vs_ai
         then (if currentPlayer gs = ''ai1'' then ''ai2'' else ''ai1'')
         else (case find (\<lambda>p. ptype p = human) (players gs) of
                 None \<Rightarrow> ''player1''
               | Some p \<Rightarrow> if player_id p = [] then ''player1'' else player_id p))
      in gs\<lparr>flippedCards := [], cards := hookResetCards (cards gs), currentPlayer := nextPlayer\<rparr>)"

definition togglePause :: "GameState \<Rightarrow> GameState" where
  "togglePause gs = gs\<lparr>gameStatus := (if gameStatus gs = paused then playing else paused)\<rparr>"

section \<open>The AI player (src/utils/aiLogic.ts)\<close>

text \<open>
  \<open>knownCards\<close> is a JavaScript \<open>Map\<close>: its entries keep the order in which the keys were first
  set, which \<open>Array.from(entries())\<close> and \<open>slice\<close> observe. It is an association list
  with one entry for each key.
\<close>

record AIMemory =
  knownCards :: "(nat \<times> Card) list"
  knownPairs :: "(nat \<times> nat) list"
  playerPatterns :: "string list"
  lastPlayerMoves :: "Move list"
  difficulty :: AIDifficulty

definition mapHas :: "nat \<Rightarrow> (nat \<times> 'v) list \<Rightarrow> bool" where
  "mapHas k m = (k \<in> fst ` set m)"

definition mapDelete :: "nat \<Rightarrow> (nat \<times> 'v) list \<Rightarrow> (nat \<times> 'v) list" where
  "mapDelete k m = filter (\<lambda>e. fst e \<noteq> k) m"

definition mapSet :: "nat \<Rightarrow> 'v \<Rightarrow> (nat \<times> 'v) list \<Rightarrow> (nat \<times> 'v) list" where
  "mapSet k v m =
     (if mapHas k m then map (\<lambda>e. if fst e = k then (k, v) else e) m else m @ [(k, v)])"

definition newAIPlayer :: "AIDifficulty \<Rightarrow> AIMemory" where
  "newAIPlayer d =
     \<lparr>knownCards = [], knownPairs = [], playerPatterns = [], lastPlayerMoves = [], difficulty = d\<rparr>"

text \<open>\<open>GAME_CONSTANTS\<close>, the probabilities in percent.\<close>

fun AI_MEMORY_LIMITS :: "AIDifficulty \<Rightarrow> nat" where
  "AI_MEMORY_LIMITS easy = 3"
| "AI_MEMORY_LIMITS medium = 7"
| "AI_MEMORY_LIMITS hard = 12"
| "AI_MEMORY_LIMITS expert = 20"

fun AI_OPTIMAL_PLAY_RATES :: "AIDifficulty \<Rightarrow> nat" where
  "AI_OPTIMAL_PLAY_RATES easy = 30"
| "AI_OPTIMAL_PLAY_RATES medium = 60"
| "AI_OPTIMAL_PLAY_RATES hard = 85"
| "AI_OPTIMAL_PLAY_RATES expert = 95"

fun getMemoryReliability :: "AIDifficulty \<Rightarrow> nat" where
  "getMemoryReliability easy = 70"
| "getMemoryReliability medium = 85"
| "getMemoryReliability hard = 95"
| "getMemoryReliability expert = 100"

definition matchedIndexList :: "Card list \<Rightarrow> nat list" where
  "matchedIndexList cs = filter (\<lambda>i. isMatched (cs ! i)) [0..<length cs]"

definition deleteMatched :: "Card list \<Rightarrow> (nat \<times> Card) list \<Rightarrow> (nat \<times> Card) list" where
  "deleteMatched cs kc = fold (\<lambda>i m. if isMatched (cs ! i) then mapDelete i m else m) [0..<length cs] kc"

definition purgeMatchedCardsFromMemory :: "AIMemory \<Rightarrow> Card list \<Rightarrow> AIMemory" where
  "purgeMatchedCardsFromMemory mem cs =
     (let matchedIndices = matchedIndexList cs in
      mem\<lparr>knownCards := deleteMatched cs (knownCards mem),
          knownPairs := filter (\<lambda>(i1, i2). i1 \<notin> set matchedIndices \<and> i2 \<notin> set matchedIndices)
                          (knownPairs mem)\<rparr>)"

definition findStrictlyAvailableCards :: "Card list \<Rightarrow> nat list" where
  "findStrictlyAvailableCards cs =
     filter (\<lambda>i. card_id (cs ! i) \<noteq> [] \<and> isFlipped (cs ! i) = False \<and> isMatched (cs ! i) = False)
       [0..<length cs]"

text \<open>
  \<open>forceEmergencyMove\<close>: the first card with an id that has a later card with an id, and the
  first such later card; \<open>i\<close> is the index of the head of the list.
\<close>

fun emergencyFrom :: "nat \<Rightarrow> Card list \<Rightarrow> (int \<times> int) option" where
  "emergencyFrom i [] = None"
| "emergencyFrom i (c # cs) =
     (if card_id c \<noteq> [] \<and> findIndex (\<lambda>d. card_id d \<noteq> []) cs \<noteq> - 1
      then Some (int i, int i + 1 + findIndex (\<lambda>d. card_id d \<noteq> []) cs)
      else emergencyFrom (Suc i) cs)"

definition forceEmergencyMove :: "Card list \<Rightarrow> int \<times> int" where
  "forceEmergencyMove cs =
     (case emergencyFrom 0 cs of
        Some m \<Rightarrow> m
      | None \<Rightarrow> (0, min 1 (int (length cs) - 1)))"

definition isValidMoveStrict :: "Card list \<Rightarrow> int \<times> int \<Rightarrow> bool" where
  "isValidMoveStrict cs move =
     (let index1 = fst move; index2 = snd move in
      if index1 < 0 \<or> index1 \<ge> int (length cs) \<or> index2 < 0 \<or> index2 \<ge> int (length cs) then False
      else if index1 = index2 then False
      else
        let card1 = cs ! nat index1; card2 = cs ! nat index2 in
        if card_id card1 = [] \<or> card_id card2 = [] then False
        else if isFlipped card1 \<or> isMatched card1 then False
        else if isFlipped card2 \<or> isMatched card2 then False
        else True)"

text \<open>\<open>cards[index]?.isMatched === true\<close>: false out of range, where the read is \<open>undefined\<close>.\<close>

definition matchedAt :: "Card list \<Rightarrow> int \<Rightarrow> bool" where
  "matchedAt cs index = (0 \<le> index \<and> index < int (length cs) \<and> isMatched (cs ! nat index))"

definition validateAndCorrectMove :: "Card list \<Rightarrow> int \<times> int \<Rightarrow> nat list \<Rightarrow> int \<times> int" where
  "validateAndCorrectMove cs move availableIndices =
     (if matchedAt cs (fst move) \<or> matchedAt cs (snd move)
      then (if length availableIndices \<ge> 2
            then (int (availableIndices ! 0), int (availableIndices ! 1))
            else forceEmergencyMove cs)
      else if isValidMoveStrict cs move then move
      else if length availableIndices \<ge> 2
           then (int (availableIndices ! 0), int (availableIndices ! 1))
           else forceEmergencyMove cs)"

definition rememberStep ::
  "AIDifficulty \<Rightarrow> Card list \<Rightarrow> nat \<Rightarrow> (nat \<times> Card) list \<times> rand \<Rightarrow> (nat \<times> Card) list \<times> rand" where
  "rememberStep diff cs index st =
     (let kc = fst st; rs = snd st; card = cs ! index in
      if card_id card = [] then (kc, rs)
      else if isMatched card then (mapDelete index kc, rs)
      else if isFlipped card
      then (let (d, rs') = draw rs in
            (if randomPercent d < getMemoryReliability diff then mapSet index card kc else kc, rs'))
      else (case map_of kc index of
              None \<Rightarrow> (kc, rs)
            | Some rememberedCard \<Rightarrow>
                (mapSet index (card\<lparr>color := color rememberedCard, rank := rank rememberedCard,
                                     suit := suit rememberedCard\<rparr>) kc, rs)))"

text \<open>The filling loop of the memory limit of the hard and expert players.\<close>

function fillRandomly ::
  "(nat \<times> Card) list \<Rightarrow> (nat \<times> Card) list \<Rightarrow> nat \<Rightarrow> rand \<Rightarrow> (nat \<times> Card) list \<times> rand" where
  "fillRandomly keepEntries remainingEntries memoryLimit rs =
     (if length keepEntries < memoryLimit \<and> length remainingEntries > 0
      then (let (d, rs') = draw rs;
                randomIdx = randomIndex d (length remainingEntries)
            in fillRandomly (keepEntries @ [remainingEntries ! randomIdx])
                 (take randomIdx remainingEntries @ drop (Suc randomIdx) remainingEntries)
                 memoryLimit rs')
      else (keepEntries, rs))"
  by pat_completeness auto
termination
proof (relation "measure (\<lambda>(k, r, l, rs). length r)")
  show "wf (measure (\<lambda>(k, r, l, rs). length r))" by simp
next
  fix keepEntries remainingEntries :: "(nat \<times> Card) list"
  fix memoryLimit :: nat and rs x :: rand and xa y and d :: nat
  assume "length keepEntries < memoryLimit \<and> 0 < length remainingEntries"
    and "xa = randomIndex d (length remainingEntries)"
  then have "xa < length remainingEntries"
    by (simp add: randomIndex_def)
  then show "((keepEntries @ [remainingEntries ! xa],
       take xa remainingEntries @ drop (Suc xa) remainingEntries, memoryLimit, y),
      keepEntries, remainingEntries, memoryLimit, rs) \<in> measure (\<lambda>(k, r, l, rs). length r)"
    by simp
qed

definition limitMemory ::
  "AIDifficulty \<Rightarrow> (nat \<times> nat) list \<Rightarrow> (nat \<times> Card) list \<Rightarrow> rand \<Rightarrow> (nat \<times> Card) list \<times> rand" where
  "limitMemory diff pairs entries rs =
     (let memoryLimit = AI_MEMORY_LIMITS diff in
      if length entries > memoryLimit
      then (if diff = easy \<or> diff = medium
            then (drop (length entries - memoryLimit) entries, rs)
            else
              let pairedIndices = set (concat (map (\<lambda>(a, b). [a, b]) pairs));
                  keepEntries = take memoryLimit (filter (\<lambda>e. fst e \<in> pairedIndices) entries);
                  remainingEntries = filter (\<lambda>e. fst e \<notin> pairedIndices) entries
              in fillRandomly keepEntries remainingEntries memoryLimit rs)
      else (entries, rs))"

fun orderedPairs :: "'a list \<Rightarrow> ('a \<times> 'a) list" where
  "orderedPairs [] = []"
| "orderedPairs (x # xs) = map (Pair x) xs @ orderedPairs xs"

definition updateKnownPairs :: "(nat \<times> Card) list \<Rightarrow> (nat \<times> nat) list \<Rightarrow> (nat \<times> nat) list" where
  "updateKnownPairs entries pairs =
     fold (\<lambda>(e1, e2) ps.
        let index1 = fst e1; card1 = snd e1; index2 = fst e2; card2 = snd e2 in
        if card_id card1 = [] \<or> card_id card2 = [] then ps
        else if cardsMatch card1 card2 mt_color \<or> cardsMatch card1 card2 mt_rank \<or>
                cardsMatch card1 card2 mt_suit
             then (if list_ex (\<lambda>pair. (fst pair = index1 \<and> snd pair = index2) \<or>
                                         (fst pair = index2 \<and> snd pair = index1)) ps
                   then ps else ps @ [(index1, index2)])
             else ps)
       (orderedPairs entries) pairs"

text \<open>
  \<open>updateMemory\<close>. Its loop over the recent moves only logs, and is left out.
\<close>

definition updateMemory :: "AIMemory \<Rightarrow> rand \<Rightarrow> Card list \<Rightarrow> Move list \<Rightarrow> AIMemory \<times> rand" where
  "updateMemory mem rs cs recentMoves =
     (let diff = difficulty mem;
          kc0 = deleteMatched cs (knownCards mem);
          (kc1, rs1) = fold (rememberStep diff cs) [0..<length cs] (kc0, rs);
          pairs1 = filter (\<lambda>(index1, index2). index1 < length cs \<and> index2 < length cs \<and>
                      \<not> isMatched (cs ! index1) \<and> \<not> isMatched (cs ! index2)) (knownPairs mem);
          (kc2, rs2) = limitMemory diff pairs1 kc1 rs1;
          pairs2 = updateKnownPairs kc2 pairs1
      in (mem\<lparr>knownCards := kc2, knownPairs := pairs2,
               lastPlayerMoves := drop (length recentMoves - 5) recentMoves\<rparr>, rs2))"

definition findSafeKnownMatch :: "AIMemory \<Rightarrow> Card list \<Rightarrow> MatchType \<Rightarrow> nat list \<Rightarrow> (int \<times> int) option" where
  "findSafeKnownMatch mem cs mt availableIndices =
     (case find (\<lambda>(index1, index2). index1 \<in> set availableIndices \<and> index2 \<in> set availableIndices \<and>
                   cardsMatch (cs ! index1) (cs ! index2) mt) (knownPairs mem) of
        Some (index1, index2) \<Rightarrow> Some (int index1, int index2)
      | None \<Rightarrow> None)"

text \<open>The shuffle written out in four places of the class, and the first two of its result.\<close>

definition shuffledFirstTwo :: "nat list \<Rightarrow> rand \<Rightarrow> (int \<times> int) \<times> rand" where
  "shuffledFirstTwo xs rs =
     (let (shuffled, rs') = shuffleLoop (length xs - 1) xs rs
      in ((int (shuffled ! 0), int (shuffled ! 1)), rs'))"

definition findSafeStrategicMove :: "AIMemory \<Rightarrow> rand \<Rightarrow> nat list \<Rightarrow> (int \<times> int) option \<times> rand" where
  "findSafeStrategicMove mem rs availableIndices =
     (if length availableIndices < 2 then (None, rs)
      else
        let unknownCards = filter (\<lambda>idx. \<not> mapHas idx (knownCards mem)) availableIndices;
            knownPairIndices = set (concat (map (\<lambda>(a, b). [a, b]) (knownPairs mem)));
            nonPairCards = filter (\<lambda>idx. idx \<notin> knownPairIndices) availableIndices
        in if difficulty mem = expert \<and> length unknownCards \<ge> 2
           then (let (m, rs') = shuffledFirstTwo unknownCards rs in (Some m, rs'))
           else if difficulty mem = hard \<and> length nonPairCards \<ge> 2
           then (let (m, rs') = shuffledFirstTwo nonPairCards rs in (Some m, rs'))
           else (let (m, rs') = shuffledFirstTwo availableIndices rs in (Some m, rs')))"

text \<open>The \<open>switch\<close> on the match type that \<open>findSafeInferredMatch\<close> writes out.\<close>

definition attributesMatch :: "Card \<Rightarrow> Card \<Rightarrow> MatchType \<Rightarrow> bool" where
  "attributesMatch knownCard otherCard mt =
     (case mt of mt_color \<Rightarrow> color knownCard = color otherCard
               | mt_rank \<Rightarrow> rank knownCard = rank otherCard
               | mt_suit \<Rightarrow> suit knownCard = suit otherCard)"

definition firstOtherMatch :: "Card list \<Rightarrow> MatchType \<Rightarrow> nat list \<Rightarrow> nat \<times> Card \<Rightarrow> nat option" where
  "firstOtherMatch cs mt availableIndices e =
     find (\<lambda>otherIndex. fst e \<noteq> otherIndex \<and> attributesMatch (snd e) (cs ! otherIndex) mt)
       availableIndices"

text \<open>The first loop of the expert: a remembered available card and an available card.\<close>

fun expertInferred :: "Card list \<Rightarrow> MatchType \<Rightarrow> nat list \<Rightarrow> (nat \<times> Card) list \<Rightarrow> (int \<times> int) option" where
  "expertInferred cs mt availableIndices [] = None"
| "expertInferred cs mt availableIndices (e # es) =
     (if fst e \<notin> set availableIndices \<or> card_id (snd e) = []
      then expertInferred cs mt availableIndices es
      else (case firstOtherMatch cs mt availableIndices e of
              Some otherIndex \<Rightarrow> Some (int (fst e), int otherIndex)
            | None \<Rightarrow> expertInferred cs mt availableIndices es))"

text \<open>The second loop of the expert: two remembered available cards.\<close>

fun expertKnownPair ::
  "MatchType \<Rightarrow> nat list \<Rightarrow> (nat \<times> Card) list \<Rightarrow> (nat \<times> Card) list \<Rightarrow> (int \<times> int) option" where
  "expertKnownPair mt availableIndices allKnown [] = None"
| "expertKnownPair mt availableIndices allKnown (e1 # es) =
     (if fst e1 \<notin> set availableIndices \<or> card_id (snd e1) = []
      then expertKnownPair mt availableIndices allKnown es
      else (case find (\<lambda>e2. \<not> (fst e1 \<ge> fst e2 \<or> fst e2 \<notin> set availableIndices \<or>
                                  card_id (snd e2) = []) \<and>
                             attributesMatch (snd e1) (snd e2) mt) allKnown of
              Some e2 \<Rightarrow> Some (int (fst e1), int (fst e2))
            | None \<Rightarrow> expertKnownPair mt availableIndices allKnown es))"

text \<open>The loop of the medium and hard players, one draw for each remembered available card.\<close>

fun accuracyInferred ::
  "nat \<Rightarrow> Card list \<Rightarrow> MatchType \<Rightarrow> nat list \<Rightarrow> (nat \<times> Card) list \<Rightarrow> rand \<Rightarrow>
   (int \<times> int) option \<times> rand" where
  "accuracyInferred memoryAccuracy cs mt availableIndices [] rs = (None, rs)"
| "accuracyInferred memoryAccuracy cs mt availableIndices (e # es) rs =
     (if fst e \<notin> set availableIndices \<or> card_id (snd e) = []
      then accuracyInferred memoryAccuracy cs mt availableIndices es rs
      else
        let (d, rs') = draw rs in
        if randomPercent d > memoryAccuracy
        then accuracyInferred memoryAccuracy cs mt availableIndices es rs'
        else (case firstOtherMatch cs mt availableIndices e of
                Some otherIndex \<Rightarrow> (Some (int (fst e), int otherIndex), rs')
              | None \<Rightarrow> accuracyInferred memoryAccuracy cs mt availableIndices es rs'))"

definition findSafeInferredMatch ::
  "AIMemory \<Rightarrow> rand \<Rightarrow> Card list \<Rightarrow> MatchType \<Rightarrow> nat list \<Rightarrow> (int \<times> int) option \<times> rand" where
  "findSafeInferredMatch mem rs cs mt availableIndices =
     (let known = knownCards mem;
          expertMove =
            (if difficulty mem = expert
             then (case expertInferred cs mt availableIndices known of
                     Some m \<Rightarrow> Some m
                   | None \<Rightarrow> expertKnownPair mt availableIndices known known)
             else None);
          memoryAccuracy = (if difficulty mem = hard then 85 else 60)
      in case expertMove of
           Some m \<Rightarrow> (Some m, rs)
         | None \<Rightarrow> accuracyInferred memoryAccuracy cs mt availableIndices known rs)"

definition makeSafeRandomMove :: "nat list \<Rightarrow> rand \<Rightarrow> (int \<times> int) \<times> rand" where
  "makeSafeRandomMove availableIndices rs = shuffledFirstTwo availableIndices rs"

definition calculateSafeMove ::
  "AIMemory \<Rightarrow> rand \<Rightarrow> Card list \<Rightarrow> MatchType \<Rightarrow> nat list \<Rightarrow> (int \<times> int) \<times> rand" where
  "calculateSafeMove mem rs cs mt availableIndices =
     (let (d, rs1) = draw rs in
      if randomPercent d < AI_OPTIMAL_PLAY_RATES (difficulty mem)
      then (case findSafeKnownMatch mem cs mt availableIndices of
              Some m \<Rightarrow> (m, rs1)
            | None \<Rightarrow>
                let (strategicMove, rs2) =
                      (if difficulty mem = hard \<or> difficulty mem = expert
                       then findSafeStrategicMove mem rs1 availableIndices else (None, rs1))
                in (case strategicMove of
                      Some m \<Rightarrow> (m, rs2)
                    | None \<Rightarrow>
                        let (inferredMatch, rs3) =
                              (if difficulty mem \<noteq> easy
                               then findSafeInferredMatch mem rs2 cs mt availableIndices
                               else (None, rs2))
                        in (case inferredMatch of
                              Some m \<Rightarrow> (m, rs3)
                            | None \<Rightarrow> makeSafeRandomMove availableIndices rs3)))
      else makeSafeRandomMove availableIndices rs1)"

text \<open>
  \<open>makeMove\<close>: the pair the promise resolves to, with the memory and the draws left. The
  reaction delay takes one draw and suspends; it changes no value.
\<close>

definition makeMove ::
  "AIMemory \<Rightarrow> rand \<Rightarrow> Card list \<Rightarrow> MatchType \<Rightarrow> Move list \<Rightarrow> (int \<times> int) \<times> AIMemory \<times> rand" where
  "makeMove mem rs cs mt playerMoves =
     (if length cs = 0 then ((0, 1), mem, rs)
      else
        let mem1 = purgeMatchedCardsFromMemory mem cs;
            availableIndices = findStrictlyAvailableCards cs
        in if length availableIndices < 2 then (forceEmergencyMove cs, mem1, rs)
           else
             let (mem2, rs2) = updateMemory mem1 rs cs playerMoves;
                 (delay, rs3) = draw rs2;
                 (selectedMove, rs4) = calculateSafeMove mem2 rs3 cs mt availableIndices
             in (validateAndCorrectMove cs selectedMove availableIndices, mem2, rs4))"

section \<open>Notions of the specification\<close>

text \<open>An available card is neither face up nor matched.\<close>

definition available :: "Card \<Rightarrow> bool" where
  "available c = (\<not> isFlipped c \<and> \<not> isMatched c)"

text \<open>The array \<open>generateGameCards\<close> has built when it calls \<open>shuffleArray\<close>.\<close>

definition preShuffleDeck :: "BoardSize \<Rightarrow> MatchType \<Rightarrow> rand \<Rightarrow> Card list" where
  "preShuffleDeck bs mt rs = fst (generatePairs (total (getBoardDimensions bs) div 2) 0 0 mt rs [])"

text \<open>A card without its place on the board, which the shuffle changes.\<close>

definition unplaced :: "Card \<Rightarrow> Card" where
  "unplaced c = c\<lparr>position := 0\<rparr>"

text \<open>A game against the easy AI on the small board, every draw being 0.\<close>

definition demoGame :: GameState where
  "demoGame = initializeGame gm_ai mt_color b4x4 ''Ann'' None (Some easy) None [] 0 0"

text \<open>The same board in a game of two humans, where hints are enabled.\<close>

definition demoLocalGame :: GameState where
  "demoLocalGame = initializeGame gm_local_multiplayer mt_color b4x4 ''Ann'' (Some ''Bob'') None None [] 0 0"

text \<open>Two available cards of the board, at \<open>i\<close> before \<open>j\<close>, that match.\<close>

definition hintPairAt :: "GameState \<Rightarrow> nat \<Rightarrow> nat \<Rightarrow> bool" where
  "hintPairAt gs i j = (i < j \<and> j < length (cards gs) \<and> available (cards gs ! i) \<and>
     available (cards gs ! j) \<and> cardsMatch (cards gs ! i) (cards gs ! j) (matchType gs))"


text \<open>A legal move: two distinct indices in bounds, each of an available card.\<close>

definition legalMove :: "Card list \<Rightarrow> int \<times> int \<Rightarrow> bool" where
  "legalMove cs m = (fst m \<noteq> snd m \<and> 0 \<le> fst m \<and> fst m < int (length cs) \<and>
     0 \<le> snd m \<and> snd m < int (length cs) \<and>
     available (cs ! nat (fst m)) \<and> available (cs ! nat (snd m)))"

text \<open>The transitions of a game: a flip, and the three resets after a mismatch.\<close>

inductive play_step :: "GameState \<Rightarrow> GameState \<Rightarrow> bool" where
  flip: "handleCardFlip now1 now2 gs i = Inr gs' \<Longrightarrow> play_step gs gs'"
| delayed_reset: "play_step gs (resetFlippedCardsWithDelay gs)"
| human_reset: "play_step gs (flipCardReset gs)"
| ai_reset: "play_step gs (scheduleAIMoveReset gs)"

text \<open>The pause toggles, of the game logic and of the hook.\<close>

inductive pause_step :: "GameState \<Rightarrow> GameState \<Rightarrow> bool" where
  logic_toggle: "pause_step gs (toggleGamePause now gs)"
| hook_toggle: "pause_step gs (togglePause gs)"

text \<open>Any transition: of the play or of the pause.\<close>

definition any_step :: "GameState \<Rightarrow> GameState \<Rightarrow> bool" where
  "any_step gs gs' = (play_step gs gs' \<or> pause_step gs gs')"

text \<open>The states a game reaches from \<open>initializeGame\<close> by transitions of \<open>R\<close>.\<close>

inductive reachable :: "(GameState \<Rightarrow> GameState \<Rightarrow> bool) \<Rightarrow> GameState \<Rightarrow> bool"
  for R :: "GameState \<Rightarrow> GameState \<Rightarrow> bool" where
  start: "reachable R (initializeGame gm mt bs player1Name player2Name aiDiff ai2Diff rs now1 now2)"
| after: "reachable R gs \<Longrightarrow> R gs gs' \<Longrightarrow> reachable R gs'"

text \<open>The sum of the scores, and the number of matched cards.\<close>

definition sumScores :: "Player list \<Rightarrow> int" where
  "sumScores ps = sum_list (map score ps)"

definition matchedCount :: "Card list \<Rightarrow> nat" where
  "matchedCount cs = length (filter isMatched cs)"

text \<open>The ids and the types of the two seats of a mode, as \<open>initializeGame\<close> sets them.\<close>

fun seatIds :: "GameMode \<Rightarrow> string list" where
  "seatIds gm_ai = [''player1'', ''ai'']"
| "seatIds gm_local_multiplayer = [''player1'', ''player2'']"
| "seatIds gm_ai_vs_ai = [''ai1'', ''ai2'']"

fun seatTypes :: "GameMode \<Rightarrow> PlayerType list" where
  "seatTypes gm_ai = [human, ai]"
| "seatTypes gm_local_multiplayer = [human, human]"
| "seatTypes gm_ai_vs_ai = [ai, ai]"

text \<open>
  The invariant of the data model: ids are distinct and not empty, a matched card is face
  up, \<open>flippedCards\<close> holds cards of the board that are face up and not matched, the seats
  are those of the mode, the current player has a seat, and the scores count the matched
  pairs and half the matched cards.
\<close>

definition wellFormed :: "GameState \<Rightarrow> bool" where
  "wellFormed gs =
     (distinct (map card_id (cards gs)) \<and>
      list_all (\<lambda>c. card_id c \<noteq> [] \<and> (isMatched c \<longrightarrow> isFlipped c)) (cards gs) \<and>
      list_all (\<lambda>c. c \<in> set (cards gs) \<and> isFlipped c \<and> \<not> isMatched c) (flippedCards gs) \<and>
      map player_id (players gs) = seatIds (gameMode gs) \<and>
      map ptype (players gs) = seatTypes (gameMode gs) \<and>
      currentPlayer gs \<in> set (seatIds (gameMode gs)) \<and>
      sumScores (players gs) = int (length (matchedPairs gs)) \<and>
      2 * sumScores (players gs) = int (matchedCount (cards gs)))"

text \<open>The end of \<open>processCardPair\<close>: the status of a state whose cards are all matched.\<close>

definition finishIfDone :: "GameState \<Rightarrow> GameState" where
  "finishIfDone s = (if isGameFinished s then s\<lparr>gameStatus := finished\<rparr> else s)"

text \<open>The card turned face up, as \<open>handleCardFlip\<close> stores it.\<close>

definition faceUp :: "Card \<Rightarrow> Card" where
  "faceUp c = c\<lparr>isFlipped := True\<rparr>"

text \<open>
  The states \<open>handleCardFlip\<close> builds: after the flip, and after the pair is resolved as
  a match or as a mismatch with \<open>n\<close> the next current player.
\<close>

definition flipState :: "GameState \<Rightarrow> int \<Rightarrow> GameState" where
  "flipState gs i =
     gs\<lparr>cards := (cards gs)[nat i := faceUp (cards gs ! nat i)],
        flippedCards := flippedCards gs @ [faceUp (cards gs ! nat i)]\<rparr>"

definition matchState :: "int \<Rightarrow> int \<Rightarrow> GameState \<Rightarrow> Card \<Rightarrow> Card \<Rightarrow> GameState" where
  "matchState now1 now2 s card1 card2 =
     s\<lparr>cards := markMatched card1 card2 (cards s),
       flippedCards := [],
       players := creditPlayer (currentPlayer s) card1 card2 (players s),
       matchedPairs := matchedPairs s @ [[card1, card2]],
       moveHistory := moveHistory s @
         [\<lparr>playerId = currentPlayer s, cardIds = [card_id card1, card_id card2],
           timestamp = now1, isMatch = True\<rparr>],
       currentPlayer := currentPlayer s, turnStartTime := Some now2\<rparr>"

definition mismatchState :: "int \<Rightarrow> int \<Rightarrow> GameState \<Rightarrow> Card \<Rightarrow> Card \<Rightarrow> string \<Rightarrow> GameState" where
  "mismatchState now1 now2 s card1 card2 n =
     s\<lparr>moveHistory := moveHistory s @
         [\<lparr>playerId = currentPlayer s, cardIds = [card_id card1, card_id card2],
           timestamp = now1, isMatch = False\<rparr>],
       currentPlayer := n, turnStartTime := Some now2\<rparr>"

text \<open>The card as \<open>processCardPair\<close> marks it on a match.\<close>

definition matchedUp :: "Card \<Rightarrow> Card" where
  "matchedUp c = c\<lparr>isMatched := True, isFlipped := True\<rparr>"

text \<open>A run of flips from a state, a refused or failing flip leaving the state as it is.\<close>

definition playFlips :: "GameState \<Rightarrow> int list \<Rightarrow> GameState" where
  "playFlips gs flips =
     fold (\<lambda>i s. case handleCardFlip 0 0 s i of Inr s' \<Rightarrow> s' | Inl e \<Rightarrow> s) flips gs"

text \<open>The demo game played to its end, pair after pair.\<close>

definition demoFinished :: GameState where
  "demoFinished = playFlips demoGame [0, 1, 2, 7, 8, 9, 10, 15, 3, 4, 5, 6, 11, 12, 13, 14]"

text \<open>
  What a transition may do to one card: the id stays, and a matched card stays matched
  and, if face up, face up.
\<close>

definition keeps :: "Card \<Rightarrow> Card \<Rightarrow> bool" where
  "keeps c c' = (card_id c' = card_id c \<and>
     (isMatched c \<longrightarrow> isMatched c' \<and> (isFlipped c \<longrightarrow> isFlipped c')))"

definition keepsAll :: "Card list \<Rightarrow> Card list \<Rightarrow> bool" where
  "keepsAll cs cs' = (length cs' = length cs \<and> (\<forall>k < length cs. keeps (cs ! k) (cs' ! k)))"

text \<open>The status of a state that flips and resets reach.\<close>

definition statusInv :: "GameState \<Rightarrow> bool" where
  "statusInv gs = ((gameStatus gs = playing \<or> gameStatus gs = finished) \<and>
     (gameStatus gs = finished \<longleftrightarrow> list_all isMatched (cards gs)))"

text \<open>The demo game after one flip, and after a pair and a mismatch.\<close>

definition demoFlipped :: GameState where
  "demoFlipped = playFlips demoGame [0]"

definition demoMismatch :: GameState where
  "demoMismatch = playFlips demoGame [0, 1, 2, 3]"

text \<open>The same board in a game of two AI players, new and after one flip.\<close>

definition demoAiGame :: GameState where
  "demoAiGame = initializeGame gm_ai_vs_ai mt_color b4x4 ''Ann'' None (Some easy) (Some hard) [] 0 0"

definition demoAiFlipped :: GameState where
  "demoAiFlipped = playFlips demoAiGame [0]"

text \<open>The game of two humans after its first pair, the cards at 0 and 1, is matched.\<close>

definition demoLocalPlayed :: GameState where
  "demoLocalPlayed = playFlips demoLocalGame [0, 1]"

section \<open>Properties\<close>

lemma demoGame_cards:
  "cards demoGame =
    [\<lparr>suit = diamonds, rank = rA, color = red, card_id = ''card-1'', position = 0, isFlipped = False, isMatched = False\<rparr>,
     \<lparr>suit = diamonds, rank = rA, color = red, card_id = ''card-2'', position = 1, isFlipped = False, isMatched = False\<rparr>,
     \<lparr>suit = hearts, rank = rA, color = red, card_id = ''card-3'', position = 2, isFlipped = False, isMatched = False\<rparr>,
     \<lparr>suit = clubs, rank = rA, color = black, card_id = ''card-4'', position = 3, isFlipped = False, isMatched = False\<rparr>,
     \<lparr>suit = spades, rank = rA, color = black, card_id = ''card-5'', position = 4, isFlipped = False, isMatched = False\<rparr>,
     \<lparr>suit = spades, rank = rA, color = black, card_id = ''card-6'', position = 5, isFlipped = False, isMatched = False\<rparr>,
     \<lparr>suit = clubs, rank = rA, color = black, card_id = ''card-7'', position = 6, isFlipped = False, isMatched = False\<rparr>,
     \<lparr>suit = hearts, rank = r2, color = red, card_id = ''card-8'', position = 7, isFlipped = False, isMatched = False\<rparr>,
     \<lparr>suit = diamonds, rank = r2, color = red, card_id = ''card-9'', position = 8, isFlipped = False, isMatched = False\<rparr>,
     \<lparr>suit = diamonds, rank = r2, color = red, card_id = ''card-10'', position = 9, isFlipped = False, isMatched = False\<rparr>,
     \<lparr>suit = hearts, rank = r2, color = red, card_id = ''card-11'', position = 10, isFlipped = False, isMatched = False\<rparr>,
     \<lparr>suit = clubs, rank = r2, color = black, card_id = ''card-12'', position = 11, isFlipped = False, isMatched = False\<rparr>,
     \<lparr>suit = spades, rank = r2, color = black, card_id = ''card-13'', position = 12, isFlipped = False, isMatched = False\<rparr>,
     \<lparr>suit = spades, rank = r2, color = black, card_id = ''card-14'', position = 13, isFlipped = False, isMatched = False\<rparr>,
     \<lparr>suit = clubs, rank = r2, color = black, card_id = ''card-15'', position = 14, isFlipped = False, isMatched = False\<rparr>,
     \<lparr>suit = hearts, rank = rA, color = red, card_id = ''card-0'', position = 15, isFlipped = False, isMatched = False\<rparr>]"
  by code_simp

lemma demoGame_fields:
  "gameStatus demoGame = playing" "flippedCards demoGame = []" "matchType demoGame = mt_color"
  "hintsEnabled (settings demoGame) = False" "gameMode demoGame = gm_ai"
  "currentPlayer demoGame = ''player1''"
  by (simp_all add: demoGame_def initializeGame_def)

lemma C2a: "\<not> canFlipCard gs i \<Longrightarrow> handleCardFlip t1 t2 gs i = Inr gs"
  by (simp add: handleCardFlip_def)

lemma canFlipCard_iff: "canFlipCard gs i \<longleftrightarrow>
   (gameStatus gs = playing \<and> 0 \<le> i \<and> i < int (length (cards gs)) \<and>
    card_id (cards gs ! nat i) \<noteq> [] \<and> available (cards gs ! nat i) \<and> length (flippedCards gs) < 2)"
  by (auto simp: canFlipCard_def Let_def available_def)

lemma flip_noop:
  "(\<not> canFlipCard gs i \<longrightarrow> handleCardFlip now1 now2 gs i = Inr gs) \<and>
   (canFlipCard gs i \<longleftrightarrow>
      gameStatus gs = playing \<and> 0 \<le> i \<and> i < int (length (cards gs)) \<and>
      card_id (cards gs ! nat i) \<noteq> [] \<and> available (cards gs ! nat i) \<and>
      length (flippedCards gs) < 2) \<and>
   ((\<forall>c \<in> set (cards gs). card_id c \<noteq> []) \<longrightarrow>
      (canFlipCard gs i \<longleftrightarrow>
         gameStatus gs = playing \<and> 0 \<le> i \<and> i < int (length (cards gs)) \<and>
         available (cards gs ! nat i) \<and> length (flippedCards gs) < 2))"
proof (intro conjI impI)
  assume "\<not> canFlipCard gs i"
  then show "handleCardFlip now1 now2 gs i = Inr gs" by (rule C2a)
next
  show "canFlipCard gs i \<longleftrightarrow>
      gameStatus gs = playing \<and> 0 \<le> i \<and> i < int (length (cards gs)) \<and>
      card_id (cards gs ! nat i) \<noteq> [] \<and> available (cards gs ! nat i) \<and>
      length (flippedCards gs) < 2" by (rule canFlipCard_iff)
next
  assume ids: "\<forall>c \<in> set (cards gs). card_id c \<noteq> []"
  have "0 \<le> i \<and> i < int (length (cards gs)) \<Longrightarrow> card_id (cards gs ! nat i) \<noteq> []"
    using ids by (simp add: nat_less_iff) 
  then show "canFlipCard gs i \<longleftrightarrow>
         gameStatus gs = playing \<and> 0 \<le> i \<and> i < int (length (cards gs)) \<and>
         available (cards gs ! nat i) \<and> length (flippedCards gs) < 2"
    unfolding canFlipCard_iff by blast
qed


lemma digit_char_inj: "a < 10 \<Longrightarrow> b < 10 \<Longrightarrow> digit_char a = digit_char b \<Longrightarrow> a = b"
proof -
  assume a: "a < 10" and b: "b < 10" and e: "digit_char a = digit_char b"
  from e have "(of_char (char_of (48 + a)) :: nat) = of_char (char_of (48 + b))"
    by (simp add: digit_char_def)
  then have "(48 + a) mod 256 = (48 + b) mod 256"
    by (simp only: of_char_of)
  with a b show "a = b" by simp
qed

lemma string_of_nat_length: "length (string_of_nat n) = (if n < 10 then 1 else Suc (length (string_of_nat (n div 10))))"
  by (subst string_of_nat.simps) simp

lemma string_of_nat_inj: "string_of_nat n = string_of_nat m \<Longrightarrow> n = m"
proof (induction n arbitrary: m rule: string_of_nat.induct)
  case (1 n)
  show ?case
  proof (cases "n < 10")
    case True
    have "m < 10"
    proof (rule ccontr)
      assume "\<not> m < 10"
      then have "length (string_of_nat m) \<ge> 2"
        using string_of_nat_length[of m] string_of_nat_length[of "m div 10"] by (simp split: if_splits)
      moreover have "length (string_of_nat n) = 1" using True string_of_nat_length[of n] by simp
      ultimately show False using "1.prems" by simp
    qed
    with True "1.prems" show ?thesis
      by (simp add: string_of_nat.simps[of n] string_of_nat.simps[of m] digit_char_inj)
  next
    case False
    have m: "\<not> m < 10"
    proof
      assume "m < 10"
      then have "length (string_of_nat m) = 1" using string_of_nat_length[of m] by simp
      moreover have "length (string_of_nat n) \<ge> 2"
        using False string_of_nat_length[of n] string_of_nat_length[of "n div 10"] by (simp split: if_splits)
      ultimately show False using "1.prems" by simp
    qed
    from "1.prems" False m
    have e: "string_of_nat (n div 10) @ [digit_char (n mod 10)] = string_of_nat (m div 10) @ [digit_char (m mod 10)]"
      by (simp add: string_of_nat.simps[of n] string_of_nat.simps[of m])
    then have "string_of_nat (n div 10) = string_of_nat (m div 10)" and d: "digit_char (n mod 10) = digit_char (m mod 10)"
      by simp_all
    then have "n div 10 = m div 10" using "1.IH" False by simp
    moreover have "n mod 10 = m mod 10" using d digit_char_inj[of "n mod 10" "m mod 10"] by simp
    ultimately show ?thesis by (metis div_mult_mod_eq)
  qed
qed

lemma generatePairs_length:
  "length (fst (generatePairs k i c mt rs acc)) = length acc + 2 * k"
  by (induction k arbitrary: i c rs acc) (simp_all add: Let_def split: prod.splits)

lemma generatePairs_prefix:
  "m < length acc \<Longrightarrow> fst (generatePairs k i c mt rs acc) ! m = acc ! m"
  by (induction k arbitrary: i c rs acc) (simp_all add: Let_def nth_append split: prod.splits)

lemma generatePairs_ids:
  "map card_id (fst (generatePairs k i c mt rs acc)) =
   map card_id acc @ map (\<lambda>n. ''card-'' @ string_of_nat n) [c..<c + 2 * k]"
proof (induction k arbitrary: i c rs acc)
  case 0
  then show ?case by simp
next
  case (Suc k)
  have "[c..<c + 2 * Suc k] = c # Suc c # [c + 2..<c + 2 + 2 * k]"
    by (simp add: upt_rec)
  then show ?case
    by (simp add: Let_def Suc.IH mkCard_def split: prod.splits)
qed

lemma generatePairs_pair:
  "j < k \<Longrightarrow>
   \<exists>d p q s t. fst (generatePairs k i c mt rs acc) ! (length acc + 2 * j) =
         mkCard (generateBaseCard (i + j) mt) s p \<and>
       fst (generatePairs k i c mt rs acc) ! (length acc + 2 * j + 1) =
         mkCard (generateMatchingCard (generateBaseCard (i + j) mt) mt d) t q"
proof (induction k arbitrary: i c rs acc j)
  case 0
  then show ?case by simp
next
  case (Suc k)
  obtain d rs' where dr: "draw rs = (d, rs')" by (cases "draw rs")
  define acc2 where "acc2 = acc @ [mkCard (generateBaseCard i mt) (''card-'' @ string_of_nat c) (int (length acc)),
     mkCard (generateMatchingCard (generateBaseCard i mt) mt d) (''card-'' @ string_of_nat (c + 1)) (1 + int (length acc))]"
  have step: "generatePairs (Suc k) i c mt rs acc = generatePairs k (Suc i) (c + 2) mt rs' acc2"
    by (simp add: Let_def dr acc2_def)
  show ?case
  proof (cases j)
    case 0
    have "fst (generatePairs k (Suc i) (c + 2) mt rs' acc2) ! length acc = acc2 ! length acc"
      by (rule generatePairs_prefix) (simp add: acc2_def)
    moreover have "fst (generatePairs k (Suc i) (c + 2) mt rs' acc2) ! (length acc + 1) = acc2 ! (length acc + 1)"
      by (rule generatePairs_prefix) (simp add: acc2_def)
    ultimately show ?thesis
      unfolding step 0 by (auto simp: acc2_def nth_append)
  next
    case (Suc j')
    then have "j' < k" using Suc.prems by simp
    from Suc.IH[OF this, of "Suc i" "c + 2" rs' acc2]
    show ?thesis unfolding step Suc by (simp add: acc2_def)
  qed
qed

lemma swap_length: "length (swap i j xs) = length xs"
  by (simp add: swap_def)

lemma shuffleLoop_length: "length (fst (shuffleLoop i xs rs)) = length xs"
  by (induction i arbitrary: xs rs) (simp_all add: swap_length split: prod.splits)

lemma shuffleLoop_mset: "i < length xs \<Longrightarrow> mset (fst (shuffleLoop i xs rs)) = mset xs"
proof (induction i arbitrary: xs rs)
  case 0
  then show ?case by simp
next
  case (Suc i)
  obtain d rs' where dr: "draw rs = (d, rs')" by (cases "draw rs")
  have j: "randomIndex d (Suc i + 1) < length xs"
    using Suc.prems by (simp add: randomIndex_def) (metis Suc_lessI less_Suc_eq mod_less_divisor not_less_eq zero_less_Suc less_trans_Suc)
  have "mset (swap (Suc i) (randomIndex d (Suc i + 1)) xs) = mset xs"
    unfolding swap_def using mset_swap[OF j Suc.prems] by simp
  moreover have "i < length (swap (Suc i) (randomIndex d (Suc i + 1)) xs)"
    using Suc.prems by (simp add: swap_length)
  ultimately show ?case using Suc.IH by (simp add: dr)
qed

lemma shuffleArray_mset: "mset (fst (shuffleArray xs rs)) = mset xs"
proof (cases xs)
  case Nil
  then show ?thesis by (simp add: shuffleArray_def)
next
  case (Cons a list)
  then show ?thesis unfolding shuffleArray_def by (intro shuffleLoop_mset) simp
qed

lemma reposition_length: "length (reposition cs) = length cs"
  by (simp add: reposition_def)

lemma reposition_ids: "map card_id (reposition cs) = map card_id cs"
  unfolding reposition_def by (rule nth_equalityI) simp_all

lemma generateGameCards_length:
  "length (fst (generateGameCards bs mt rs)) = total (getBoardDimensions bs)"
  by (cases bs)
     (simp_all add: generateGameCards_def Let_def reposition_length shuffleArray_def
        shuffleLoop_length generatePairs_length split: prod.splits,
      (metis fst_conv generatePairs_length shuffleLoop_length list.size(3) add_0 mult_2 numeral_Bit0)+)

lemma pickOr_mem: "xs \<noteq> [] \<Longrightarrow> pickOr xs (randomIndex d (length xs)) dflt \<in> set xs"
  by (simp add: pickOr_def randomIndex_def)

lemma other_suit_exists: "filter (\<lambda>s. s \<noteq> t) suits \<noteq> []"
  by (cases t) (simp_all add: suits_def)

lemma other_rank_exists: "filter (\<lambda>r. r \<noteq> t) ranks \<noteq> []"
  by (cases t) (simp_all add: ranks_def)

lemma same_color_suit_exists: "filter (\<lambda>s. getCardColor s = getCardColor t \<and> s \<noteq> t) suits \<noteq> []"
  by (cases t) (simp_all add: suits_def getCardColor_def)

lemma generateBaseCard_color: "color (generateBaseCard i mt) = getCardColor (suit (generateBaseCard i mt))"
  by (simp add: generateBaseCard_def Let_def getCardColor_def)

lemma partner_color:
  assumes "color base = getCardColor (suit base)"
  shows "color (generateMatchingCard base mt_color d) = color base \<and>
         suit (generateMatchingCard base mt_color d) \<noteq> suit base \<and>
         getCardColor (suit (generateMatchingCard base mt_color d)) = color base \<and>
         rank (generateMatchingCard base mt_color d) = rank base"
proof -
  let ?xs = "filter (\<lambda>s. getCardColor s = color base \<and> s \<noteq> suit base) suits"
  have "?xs \<noteq> []" using same_color_suit_exists[of "suit base"] assms by simp
  then have "pickOr ?xs (randomIndex d (length ?xs)) (suit base) \<in> set ?xs"
    by (rule pickOr_mem)
  then show ?thesis by (simp add: Let_def)
qed

lemma partner_rank:
  "rank (generateMatchingCard base mt_rank d) = rank base \<and>
   suit (generateMatchingCard base mt_rank d) \<noteq> suit base \<and>
   color (generateMatchingCard base mt_rank d) = getCardColor (suit (generateMatchingCard base mt_rank d))"
proof -
  let ?xs = "filter (\<lambda>s. s \<noteq> suit base) suits"
  have "pickOr ?xs (randomIndex d (length ?xs)) (suits ! 0) \<in> set ?xs"
    using other_suit_exists by (rule pickOr_mem)
  then show ?thesis by (simp add: Let_def)
qed

lemma partner_suit:
  "suit (generateMatchingCard base mt_suit d) = suit base \<and>
   rank (generateMatchingCard base mt_suit d) \<noteq> rank base \<and>
   color (generateMatchingCard base mt_suit d) = color base"
proof -
  let ?xs = "filter (\<lambda>r. r \<noteq> rank base) ranks"
  have "pickOr ?xs (randomIndex d (length ?xs)) (ranks ! 0) \<in> set ?xs"
    using other_rank_exists by (rule pickOr_mem)
  then show ?thesis by (simp add: Let_def)
qed

lemma partner_matches:
  "cardsMatch (generateBaseCard i mt) (generateMatchingCard (generateBaseCard i mt) mt d) mt"
  using partner_color[OF generateBaseCard_color, of i mt d] partner_rank partner_suit
  by (cases mt) simp_all

lemma cardsMatch_mkCard: "cardsMatch (mkCard f s p) (mkCard g t q) mt = cardsMatch f g mt"
  by (cases mt) (simp_all add: mkCard_def)

lemma preShuffle_pairs:
  assumes "i < total (getBoardDimensions bs) div 2"
  shows "cardsMatch (preShuffleDeck bs mt rs ! (2 * i)) (preShuffleDeck bs mt rs ! (2 * i + 1)) mt \<and>
         CardFace.truncate (preShuffleDeck bs mt rs ! (2 * i)) = generateBaseCard i mt"
proof -
  from generatePairs_pair[OF assms, of 0 0 mt rs "[]"]
  obtain d p q s t where
    a: "preShuffleDeck bs mt rs ! (2 * i) = mkCard (generateBaseCard i mt) s p" and
    b: "preShuffleDeck bs mt rs ! (2 * i + 1) =
          mkCard (generateMatchingCard (generateBaseCard i mt) mt d) t q"
    unfolding preShuffleDeck_def by auto
  show ?thesis
    unfolding a b cardsMatch_mkCard using partner_matches
    by (simp add: mkCard_def CardFace.truncate_def)
qed

lemma unplaced_reposition: "map unplaced (reposition cs) = map unplaced cs"
  unfolding reposition_def by (rule nth_equalityI) (simp_all add: unplaced_def)

lemma generateGameCards_perm:
  "mset (map unplaced (fst (generateGameCards bs mt rs))) = mset (map unplaced (preShuffleDeck bs mt rs))"
proof -
  obtain cs rs1 where g: "generatePairs (total (getBoardDimensions bs) div 2) 0 0 mt rs [] = (cs, rs1)"
    by (cases "generatePairs (total (getBoardDimensions bs) div 2) 0 0 mt rs []")
  obtain sh rs2 where s: "shuffleArray cs rs1 = (sh, rs2)" by (cases "shuffleArray cs rs1")
  have "mset sh = mset cs" using shuffleArray_mset[of cs rs1] s by simp
  then have "mset (map unplaced sh) = mset (map unplaced cs)" by simp
  then show ?thesis
    by (simp add: generateGameCards_def Let_def g s preShuffleDeck_def unplaced_reposition)
qed

lemma board_total: "total (getBoardDimensions bs) \<in> {16, 24, 36}"
  by (cases bs) simp_all

lemma truncate_mkCard: "CardFace.truncate (mkCard f s p) = f"
  by (simp add: mkCard_def CardFace.truncate_def)

lemma mkCard_face: "suit (mkCard f s p) = suit f" "rank (mkCard f s p) = rank f"
  "color (mkCard f s p) = color f"
  by (simp_all add: mkCard_def)

lemma preShuffle_length: "length (preShuffleDeck bs mt rs) = total (getBoardDimensions bs)"
  by (cases bs) (simp_all add: preShuffleDeck_def generatePairs_length)

lemma preShuffle_partner:
  assumes "i < total (getBoardDimensions bs) div 2"
  shows "\<exists>d s t p q.
     preShuffleDeck bs mt rs ! (2 * i) = mkCard (generateBaseCard i mt) s p \<and>
     preShuffleDeck bs mt rs ! (2 * i + 1) =
       mkCard (generateMatchingCard (generateBaseCard i mt) mt d) t q"
  using generatePairs_pair[OF assms, of 0 0 mt rs "[]"] unfolding preShuffleDeck_def by auto

lemma partner_props:
  "cardsMatch (generateBaseCard i mt) (generateMatchingCard (generateBaseCard i mt) mt d) mt \<and>
   (mt = mt_color \<longrightarrow>
      color (generateMatchingCard (generateBaseCard i mt) mt d) = color (generateBaseCard i mt) \<and>
      suit (generateMatchingCard (generateBaseCard i mt) mt d) \<noteq> suit (generateBaseCard i mt) \<and>
      getCardColor (suit (generateMatchingCard (generateBaseCard i mt) mt d)) =
        color (generateBaseCard i mt)) \<and>
   (mt = mt_rank \<longrightarrow>
      rank (generateMatchingCard (generateBaseCard i mt) mt d) = rank (generateBaseCard i mt) \<and>
      suit (generateMatchingCard (generateBaseCard i mt) mt d) \<noteq> suit (generateBaseCard i mt)) \<and>
   (mt = mt_suit \<longrightarrow>
      suit (generateMatchingCard (generateBaseCard i mt) mt d) = suit (generateBaseCard i mt) \<and>
      rank (generateMatchingCard (generateBaseCard i mt) mt d) \<noteq> rank (generateBaseCard i mt))"
proof (intro conjI impI)
  show "cardsMatch (generateBaseCard i mt) (generateMatchingCard (generateBaseCard i mt) mt d) mt"
    by (rule partner_matches)
next
  assume m: "mt = mt_color"
  note p = partner_color[OF generateBaseCard_color, of i mt_color d]
  show "color (generateMatchingCard (generateBaseCard i mt) mt d) = color (generateBaseCard i mt)"
    "suit (generateMatchingCard (generateBaseCard i mt) mt d) \<noteq> suit (generateBaseCard i mt)"
    "getCardColor (suit (generateMatchingCard (generateBaseCard i mt) mt d)) =
        color (generateBaseCard i mt)"
    unfolding m using p by blast+
next
  assume m: "mt = mt_rank"
  note p = partner_rank[of "generateBaseCard i mt_rank" d]
  show "rank (generateMatchingCard (generateBaseCard i mt) mt d) = rank (generateBaseCard i mt)"
    "suit (generateMatchingCard (generateBaseCard i mt) mt d) \<noteq> suit (generateBaseCard i mt)"
    unfolding m using p by blast+
next
  assume m: "mt = mt_suit"
  note p = partner_suit[of "generateBaseCard i mt_suit" d]
  show "suit (generateMatchingCard (generateBaseCard i mt) mt d) = suit (generateBaseCard i mt)"
    "rank (generateMatchingCard (generateBaseCard i mt) mt d) \<noteq> rank (generateBaseCard i mt)"
    unfolding m using p by blast+
qed

lemma preShuffle_props:
  assumes i: "i < total (getBoardDimensions bs) div 2"
  shows "CardFace.truncate (preShuffleDeck bs mt rs ! (2 * i)) = generateBaseCard i mt \<and>
      (\<exists>d. CardFace.truncate (preShuffleDeck bs mt rs ! (2 * i + 1)) =
             generateMatchingCard (generateBaseCard i mt) mt d) \<and>
      cardsMatch (preShuffleDeck bs mt rs ! (2 * i)) (preShuffleDeck bs mt rs ! (2 * i + 1)) mt \<and>
      (mt = mt_color \<longrightarrow>
         color (preShuffleDeck bs mt rs ! (2 * i + 1)) = color (preShuffleDeck bs mt rs ! (2 * i)) \<and>
         suit (preShuffleDeck bs mt rs ! (2 * i + 1)) \<noteq> suit (preShuffleDeck bs mt rs ! (2 * i)) \<and>
         getCardColor (suit (preShuffleDeck bs mt rs ! (2 * i + 1))) =
           color (preShuffleDeck bs mt rs ! (2 * i))) \<and>
      (mt = mt_rank \<longrightarrow>
         rank (preShuffleDeck bs mt rs ! (2 * i + 1)) = rank (preShuffleDeck bs mt rs ! (2 * i)) \<and>
         suit (preShuffleDeck bs mt rs ! (2 * i + 1)) \<noteq> suit (preShuffleDeck bs mt rs ! (2 * i))) \<and>
      (mt = mt_suit \<longrightarrow>
         suit (preShuffleDeck bs mt rs ! (2 * i + 1)) = suit (preShuffleDeck bs mt rs ! (2 * i)) \<and>
         rank (preShuffleDeck bs mt rs ! (2 * i + 1)) \<noteq> rank (preShuffleDeck bs mt rs ! (2 * i)))"
proof -
  from preShuffle_partner[OF i, of mt rs] obtain d s t p q where
    a: "preShuffleDeck bs mt rs ! (2 * i) = mkCard (generateBaseCard i mt) s p" and
    b: "preShuffleDeck bs mt rs ! (2 * i + 1) =
          mkCard (generateMatchingCard (generateBaseCard i mt) mt d) t q"
    by blast
  have e: "\<exists>d'. generateMatchingCard (generateBaseCard i mt) mt d =
      generateMatchingCard (generateBaseCard i mt) mt d'" by (rule exI) (rule refl)
  note g = partner_props[of i mt d]
  show ?thesis
    unfolding a b truncate_mkCard mkCard_face cardsMatch_mkCard
    apply (intro conjI)
         apply (rule refl)
        apply (rule e)
       apply (rule g[THEN conjunct1])
      apply (rule g[THEN conjunct2, THEN conjunct1])
     apply (rule g[THEN conjunct2, THEN conjunct2, THEN conjunct1])
    apply (rule g[THEN conjunct2, THEN conjunct2, THEN conjunct2])
    done
qed

text \<open>
  Claim C8. On each of the three boards and for each match type, the deck has as many
  cards as the board has cells (16, 24 or 36, an even number). The array built before the
  shuffle has that length and holds, for each \<open>i\<close> below half of it, base card \<open>i\<close> at
  \<open>2 i\<close> and at \<open>2 i + 1\<close> the partner that \<open>generateMatchingCard\<close> makes of that base
  card with some draw; the two cards match, and the partner has the same colour and another
  suit of that colour, the same rank and another suit, or the same suit and another rank,
  as the match type says. The partner that \<open>generateMatchingCard\<close> makes has these
  properties for every base card and every draw. The deck is the array built before the
  shuffle in another order.
\<close>

theorem C8_deck_valid:
  "length (fst (generateGameCards bs mt rs)) = total (getBoardDimensions bs) \<and>
   total (getBoardDimensions bs) \<in> {16, 24, 36} \<and>
   even (length (fst (generateGameCards bs mt rs))) \<and>
   length (preShuffleDeck bs mt rs) = total (getBoardDimensions bs) \<and>
   (\<forall>i < total (getBoardDimensions bs) div 2.
      CardFace.truncate (preShuffleDeck bs mt rs ! (2 * i)) = generateBaseCard i mt \<and>
      (\<exists>d. CardFace.truncate (preShuffleDeck bs mt rs ! (2 * i + 1)) =
             generateMatchingCard (generateBaseCard i mt) mt d) \<and>
      cardsMatch (preShuffleDeck bs mt rs ! (2 * i)) (preShuffleDeck bs mt rs ! (2 * i + 1)) mt \<and>
      (mt = mt_color \<longrightarrow>
         color (preShuffleDeck bs mt rs ! (2 * i + 1)) = color (preShuffleDeck bs mt rs ! (2 * i)) \<and>
         suit (preShuffleDeck bs mt rs ! (2 * i + 1)) \<noteq> suit (preShuffleDeck bs mt rs ! (2 * i)) \<and>
         getCardColor (suit (preShuffleDeck bs mt rs ! (2 * i + 1))) =
           color (preShuffleDeck bs mt rs ! (2 * i))) \<and>
      (mt = mt_rank \<longrightarrow>
         rank (preShuffleDeck bs mt rs ! (2 * i + 1)) = rank (preShuffleDeck bs mt rs ! (2 * i)) \<and>
         suit (preShuffleDeck bs mt rs ! (2 * i + 1)) \<noteq> suit (preShuffleDeck bs mt rs ! (2 * i))) \<and>
      (mt = mt_suit \<longrightarrow>
         suit (preShuffleDeck bs mt rs ! (2 * i + 1)) = suit (preShuffleDeck bs mt rs ! (2 * i)) \<and>
         rank (preShuffleDeck bs mt rs ! (2 * i + 1)) \<noteq> rank (preShuffleDeck bs mt rs ! (2 * i)))) \<and>
   (\<forall>i d.
      cardsMatch (generateBaseCard i mt) (generateMatchingCard (generateBaseCard i mt) mt d) mt \<and>
      (mt = mt_color \<longrightarrow>
         color (generateMatchingCard (generateBaseCard i mt) mt d) = color (generateBaseCard i mt) \<and>
         suit (generateMatchingCard (generateBaseCard i mt) mt d) \<noteq> suit (generateBaseCard i mt) \<and>
         getCardColor (suit (generateMatchingCard (generateBaseCard i mt) mt d)) =
           color (generateBaseCard i mt)) \<and>
      (mt = mt_rank \<longrightarrow>
         rank (generateMatchingCard (generateBaseCard i mt) mt d) = rank (generateBaseCard i mt) \<and>
         suit (generateMatchingCard (generateBaseCard i mt) mt d) \<noteq> suit (generateBaseCard i mt)) \<and>
      (mt = mt_suit \<longrightarrow>
         suit (generateMatchingCard (generateBaseCard i mt) mt d) = suit (generateBaseCard i mt) \<and>
         rank (generateMatchingCard (generateBaseCard i mt) mt d) \<noteq> rank (generateBaseCard i mt))) \<and>
   mset (map unplaced (fst (generateGameCards bs mt rs))) =
     mset (map unplaced (preShuffleDeck bs mt rs))"
proof (intro conjI)
  show len: "length (fst (generateGameCards bs mt rs)) = total (getBoardDimensions bs)"
    by (rule generateGameCards_length)
  show "total (getBoardDimensions bs) \<in> {16, 24, 36}" by (rule board_total)
  have "even (total (getBoardDimensions bs))" by (cases bs) simp_all
  then show "even (length (fst (generateGameCards bs mt rs)))" unfolding len .
  show "length (preShuffleDeck bs mt rs) = total (getBoardDimensions bs)"
    by (rule preShuffle_length)
  show "mset (map unplaced (fst (generateGameCards bs mt rs))) =
     mset (map unplaced (preShuffleDeck bs mt rs))"
    by (rule generateGameCards_perm)
qed ((intro allI impI)?, (rule preShuffle_props partner_props), assumption?)+

theorem C8_deck_valid_witness:
  "length (fst (generateGameCards b4x4 mt_color [])) = 16 \<and>
   length (preShuffleDeck b4x4 mt_color []) = 16 \<and>
   (2::nat) < total (getBoardDimensions b4x4) div 2 \<and>
   suit (preShuffleDeck b4x4 mt_color [] ! 4) = clubs \<and>
   suit (preShuffleDeck b4x4 mt_color [] ! 5) = spades \<and>
   suit (preShuffleDeck b4x4 mt_color [] ! 5) \<noteq> suit (preShuffleDeck b4x4 mt_color [] ! 4) \<and>
   color (preShuffleDeck b4x4 mt_color [] ! 5) = color (preShuffleDeck b4x4 mt_color [] ! 4) \<and>
   cardsMatch (preShuffleDeck b4x4 mt_color [] ! 4) (preShuffleDeck b4x4 mt_color [] ! 5) mt_color \<and>
   suit (generateBaseCard 2 mt_color) = clubs \<and>
   suit (generateMatchingCard (generateBaseCard 2 mt_color) mt_color 7) = spades \<and>
   color (generateMatchingCard (generateBaseCard 2 mt_color) mt_color 7) = black"
proof -
  note c8 = C8_deck_valid [of b4x4 mt_color "[]"]
  have i: "(2::nat) < total (getBoardDimensions b4x4) div 2" by simp
  have s: "suit (preShuffleDeck b4x4 mt_color [] ! 4) = clubs"
    "suit (preShuffleDeck b4x4 mt_color [] ! 5) = spades"
    "suit (generateBaseCard 2 mt_color) = clubs"
    "suit (generateMatchingCard (generateBaseCard 2 mt_color) mt_color 7) = spades"
    "color (generateBaseCard 2 mt_color) = black"
    by code_simp+
  have len: "length (fst (generateGameCards b4x4 mt_color [])) = 16"
    "length (preShuffleDeck b4x4 mt_color []) = 16"
    using c8 [THEN conjunct1] c8 [THEN conjunct2, THEN conjunct2, THEN conjunct2, THEN conjunct1]
    by simp_all
  note deck = c8 [THEN conjunct2, THEN conjunct2, THEN conjunct2, THEN conjunct2, THEN conjunct1,
      rule_format, OF i]
  note gen = c8 [THEN conjunct2, THEN conjunct2, THEN conjunct2, THEN conjunct2, THEN conjunct2,
      THEN conjunct1, rule_format, of 2 7]
  have n: "(2::nat) * 2 = 4" "(4::nat) + 1 = 5" by simp_all
  from deck have
    m: "cardsMatch (preShuffleDeck b4x4 mt_color [] ! 4) (preShuffleDeck b4x4 mt_color [] ! 5) mt_color"
    and d: "suit (preShuffleDeck b4x4 mt_color [] ! 5) \<noteq> suit (preShuffleDeck b4x4 mt_color [] ! 4)"
    and c: "color (preShuffleDeck b4x4 mt_color [] ! 5) = color (preShuffleDeck b4x4 mt_color [] ! 4)"
    unfolding n by blast+
  from gen have
    g: "color (generateMatchingCard (generateBaseCard 2 mt_color) mt_color 7) =
        color (generateBaseCard 2 mt_color)"
    by blast
  show ?thesis using len i s m d c g by (simp only: simp_thms)
qed

lemma set_orderedPairs:
  "(a, b) \<in> set (orderedPairs xs) \<longleftrightarrow> (\<exists>i j. i < j \<and> j < length xs \<and> a = xs ! i \<and> b = xs ! j)"
proof (induction xs)
  case Nil
  then show ?case by simp
next
  case (Cons x xs)
  show ?case
  proof
    assume "(a, b) \<in> set (orderedPairs (x # xs))"
    then consider "a = x \<and> b \<in> set xs" | "(a, b) \<in> set (orderedPairs xs)" by auto
    then show "\<exists>i j. i < j \<and> j < length (x # xs) \<and> a = (x # xs) ! i \<and> b = (x # xs) ! j"
    proof cases
      case 1
      then obtain k where "k < length xs" "b = xs ! k" by (auto simp: in_set_conv_nth)
      with 1 have "0 < Suc k \<and> Suc k < length (x # xs) \<and> a = (x # xs) ! 0 \<and> b = (x # xs) ! Suc k"
        by simp
      then show ?thesis by blast
    next
      case 2
      with Cons.IH obtain i j where "i < j" "j < length xs" "a = xs ! i" "b = xs ! j" by blast
      then have "Suc i < Suc j \<and> Suc j < length (x # xs) \<and> a = (x # xs) ! Suc i \<and> b = (x # xs) ! Suc j"
        by simp
      then show ?thesis by blast
    qed
  next
    assume "\<exists>i j. i < j \<and> j < length (x # xs) \<and> a = (x # xs) ! i \<and> b = (x # xs) ! j"
    then obtain i j where ij: "i < j" "j < length (x # xs)" "a = (x # xs) ! i" "b = (x # xs) ! j"
      by blast
    then obtain j' where j': "j = Suc j'" by (cases j) auto
    show "(a, b) \<in> set (orderedPairs (x # xs))"
    proof (cases i)
      case 0
      with ij j' show ?thesis by auto
    next
      case (Suc i')
      with ij j' have "i' < j' \<and> j' < length xs \<and> a = xs ! i' \<and> b = xs ! j'" by simp
      with Cons.IH have "(a, b) \<in> set (orderedPairs xs)" by blast
      then show ?thesis by simp
    qed
  qed
qed

lemma orderedPairs_filter:
  "orderedPairs (filter P xs) = filter (\<lambda>(a, b). P a \<and> P b) (orderedPairs xs)"
proof (induction xs)
  case Nil
  then show ?case by simp
next
  case (Cons x xs)
  have m: "filter (\<lambda>(a, b). P a \<and> P b) (map (Pair x) xs) = (if P x then map (Pair x) (filter P xs) else [])"
    by (induction xs) auto
  show ?case using Cons.IH by (simp add: m)
qed

lemma findHintPair_None:
  "findHintPair cs mt = None \<longleftrightarrow> (\<forall>(a, b) \<in> set (orderedPairs cs). \<not> cardsMatch a b mt)"
proof (induction cs)
  case Nil
  then show ?case by simp
next
  case (Cons c cs)
  show ?case
  proof (cases "find (\<lambda>d. cardsMatch c d mt) cs")
    case None
    then have "\<forall>d \<in> set cs. \<not> cardsMatch c d mt" by (simp add: find_None_iff)
    with None Cons.IH show ?thesis by auto
  next
    case (Some d)
    then have "d \<in> set cs" "cardsMatch c d mt" by (auto simp: find_Some_iff)
    with Some show ?thesis by auto
  qed
qed

lemma findHintPair_Some:
  "findHintPair cs mt = Some h \<Longrightarrow>
   \<exists>(a, b) \<in> set (orderedPairs cs). cardsMatch a b mt \<and> h = (position a, position b)"
proof (induction cs)
  case Nil
  then show ?case by simp
next
  case (Cons c cs)
  show ?case
  proof (cases "find (\<lambda>d. cardsMatch c d mt) cs")
    case None
    with Cons show ?thesis by auto
  next
    case (Some d)
    then have "d \<in> set cs" "cardsMatch c d mt" by (auto simp: find_Some_iff)
    moreover have "h = (position c, position d)" using Cons.prems Some by simp
    ultimately show ?thesis by auto
  qed
qed

lemma available_pairs:
  "(a, b) \<in> set (orderedPairs (filter (\<lambda>card. \<not> isMatched card \<and> \<not> isFlipped card) cs)) \<longleftrightarrow>
   (\<exists>i j. i < j \<and> j < length cs \<and> a = cs ! i \<and> b = cs ! j \<and> available a \<and> available b)"
  unfolding orderedPairs_filter by (auto simp: set_orderedPairs available_def)

lemma getHint_None:
  "hintsEnabled (settings gs) \<Longrightarrow> getHint gs = None \<longleftrightarrow> (\<forall>i j. \<not> hintPairAt gs i j)"
proof -
  assume h: "hintsEnabled (settings gs)"
  let ?u = "filter (\<lambda>card. \<not> isMatched card \<and> \<not> isFlipped card) (cards gs)"
  have "getHint gs = None \<longleftrightarrow> (\<forall>a b. (a, b) \<in> set (orderedPairs ?u) \<longrightarrow> \<not> cardsMatch a b (matchType gs))"
    using h by (auto simp: getHint_def Let_def findHintPair_None)
  also have "\<dots> \<longleftrightarrow> (\<forall>i j. \<not> hintPairAt gs i j)"
    unfolding available_pairs hintPairAt_def by blast
  finally show ?thesis .
qed

lemma getHint_Some:
  "getHint gs = Some h \<Longrightarrow>
   \<exists>i j. hintPairAt gs i j \<and> h = (position (cards gs ! i), position (cards gs ! j))"
proof -
  assume s: "getHint gs = Some h"
  let ?u = "filter (\<lambda>card. \<not> isMatched card \<and> \<not> isFlipped card) (cards gs)"
  from s have "findHintPair ?u (matchType gs) = Some h"
    by (simp add: getHint_def Let_def split: if_splits)
  from findHintPair_Some[OF this] obtain a b where
    ab: "(a, b) \<in> set (orderedPairs ?u)" "cardsMatch a b (matchType gs)" "h = (position a, position b)"
    by blast
  from ab(1) obtain i j where "i < j" "j < length (cards gs)" "a = cards gs ! i" "b = cards gs ! j"
    "available a" "available b" unfolding available_pairs by blast
  with ab have "hintPairAt gs i j \<and> h = (position (cards gs ! i), position (cards gs ! j))"
    by (simp add: hintPairAt_def)
  then show ?thesis by blast
qed

lemma demoLocalGame_cards: "cards demoLocalGame = cards demoGame"
  by (simp add: demoLocalGame_def demoGame_def initializeGame_def)

lemma demoLocalGame_fields:
  "gameStatus demoLocalGame = playing" "flippedCards demoLocalGame = []"
  "matchType demoLocalGame = mt_color" "hintsEnabled (settings demoLocalGame) = True"
  "gameMode demoLocalGame = gm_local_multiplayer" "currentPlayer demoLocalGame = ''player1''"
  by (simp_all add: demoLocalGame_def initializeGame_def)

lemma demoLocalGame_hint: "getHint demoLocalGame = Some (0, 1)"
  by (simp add: getHint_def demoLocalGame_cards demoGame_cards demoLocalGame_fields)

lemma findIndex_none: "findIndex P xs = - 1 \<longleftrightarrow> (\<forall>x \<in> set xs. \<not> P x)"
  and findIndex_range: "findIndex P xs = - 1 \<or> (0 \<le> findIndex P xs \<and> findIndex P xs < int (length xs))"
  by (induction xs) (auto simp: Let_def)

lemma findIndex_found:
  "findIndex P xs \<noteq> - 1 \<Longrightarrow>
   0 \<le> findIndex P xs \<and> findIndex P xs < int (length xs) \<and> P (xs ! nat (findIndex P xs))"
proof (induction xs)
  case Nil
  then show ?case by simp
next
  case (Cons x xs)
  show ?case
  proof (cases "P x")
    case True
    then show ?thesis by simp
  next
    case False
    with Cons.prems have n: "findIndex P xs \<noteq> - 1" by (simp add: Let_def split: if_splits)
    from Cons.IH[OF n] have r: "0 \<le> findIndex P xs" "findIndex P xs < int (length xs)"
      "P (xs ! nat (findIndex P xs))" by simp_all
    have "nat (findIndex P xs + 1) = Suc (nat (findIndex P xs))" using r by simp
    with False n r show ?thesis by (simp add: Let_def)
  qed
qed

lemma available_strict:
  "i \<in> set (findStrictlyAvailableCards cs) \<longleftrightarrow>
   i < length cs \<and> card_id (cs ! i) \<noteq> [] \<and> available (cs ! i)"
  by (auto simp: findStrictlyAvailableCards_def available_def)

lemma available_distinct: "distinct (findStrictlyAvailableCards cs)"
  by (simp add: findStrictlyAvailableCards_def)

lemma first_two_legal:
  assumes "2 \<le> length (findStrictlyAvailableCards cs)"
  shows "isValidMoveStrict cs (int (findStrictlyAvailableCards cs ! 0), int (findStrictlyAvailableCards cs ! 1))"
proof -
  let ?av = "findStrictlyAvailableCards cs"
  have l: "0 < length ?av" "1 < length ?av" using assms by linarith+
  then have a: "?av ! 0 \<in> set ?av" and b: "?av ! 1 \<in> set ?av" by (simp_all only: nth_mem)
  have "?av ! 0 \<noteq> ?av ! 1"
    using nth_eq_iff_index_eq[OF available_distinct[of cs] l] by simp
  with a b show ?thesis
    unfolding available_strict by (simp add: isValidMoveStrict_def Let_def available_def)
qed

lemma isValidMoveStrict_legal: "isValidMoveStrict cs m \<Longrightarrow> legalMove cs m"
  by (simp add: isValidMoveStrict_def legalMove_def Let_def available_def split: if_splits)

lemma validateAndCorrectMove_valid:
  "2 \<le> length (findStrictlyAvailableCards cs) \<Longrightarrow>
   isValidMoveStrict cs (validateAndCorrectMove cs move (findStrictlyAvailableCards cs))"
  using first_two_legal[of cs] by (simp add: validateAndCorrectMove_def)

lemma makeMove_enough:
  assumes "2 \<le> length (findStrictlyAvailableCards cs)"
  shows "\<exists>move. fst (makeMove mem rs cs mt pm) =
           validateAndCorrectMove cs move (findStrictlyAvailableCards cs)"
proof -
  have "length cs \<noteq> 0" using assms by (auto simp: findStrictlyAvailableCards_def)
  then show ?thesis using assms
    by (auto simp: makeMove_def Let_def split: prod.splits)
qed

lemma length_filter_nth: "length (filter (\<lambda>i. P (cs ! i)) [0..<length cs]) = length (filter P cs)"
proof -
  have "filter P cs = filter P (map (\<lambda>i. cs ! i) [0..<length cs])" by (simp add: map_nth)
  also have "\<dots> = map (\<lambda>i. cs ! i) (filter (\<lambda>i. P (cs ! i)) [0..<length cs])"
    by (simp add: filter_map comp_def)
  finally show ?thesis by (metis length_map)
qed

lemma strict_available_count:
  "length (findStrictlyAvailableCards cs) = length (filter (\<lambda>c. card_id c \<noteq> [] \<and> available c) cs)"
  unfolding findStrictlyAvailableCards_def available_def
  using length_filter_nth[of "\<lambda>c. card_id c \<noteq> [] \<and> isFlipped c = False \<and> isMatched c = False" cs]
  by simp


lemma strict_available_ids:
  "\<forall>c \<in> set cs. card_id c \<noteq> [] \<Longrightarrow>
   length (findStrictlyAvailableCards cs) = length (filter available cs)"
  unfolding strict_available_count by (metis (mono_tags, lifting) filter_cong)

lemma ai_move_legal:
  "(2 \<le> length (findStrictlyAvailableCards cs) \<longrightarrow> legalMove cs (fst (makeMove mem rs cs mt pm))) \<and>
   ((\<forall>c \<in> set cs. card_id c \<noteq> []) \<and> 2 \<le> length (filter available cs) \<longrightarrow>
      legalMove cs (fst (makeMove mem rs cs mt pm)))"
proof -
  have a: "legalMove cs (fst (makeMove mem rs cs mt pm))"
    if "2 \<le> length (findStrictlyAvailableCards cs)"
  proof -
    from makeMove_enough[OF that] obtain move where
      "fst (makeMove mem rs cs mt pm) = validateAndCorrectMove cs move (findStrictlyAvailableCards cs)"
      by blast
    then show ?thesis
      using validateAndCorrectMove_valid[OF that] isValidMoveStrict_legal by simp
  qed
  show ?thesis using a strict_available_ids by auto
qed








lemma cardsMatch_faceUp [simp]: "cardsMatch a (faceUp b) mt = cardsMatch a b mt"
  by (cases mt) (simp_all add: faceUp_def)

lemma canFlipCard_D:
  assumes "canFlipCard gs i"
  shows "0 \<le> i" "nat i < length (cards gs)" "card_id (cards gs ! nat i) \<noteq> []"
    "\<not> isFlipped (cards gs ! nat i)" "\<not> isMatched (cards gs ! nat i)"
    "gameStatus gs = playing" "length (flippedCards gs) < 2"
  using assms unfolding canFlipCard_iff available_def by auto

lemma handleCardFlip_accept:
  assumes "canFlipCard gs i"
  shows "handleCardFlip now1 now2 gs i =
    (if length (flippedCards gs) = 1
     then processCardPair now1 now2
            (gs\<lparr>cards := (cards gs)[nat i := faceUp (cards gs ! nat i)],
                flippedCards := flippedCards gs @ [faceUp (cards gs ! nat i)]\<rparr>)
     else Inr (gs\<lparr>cards := (cards gs)[nat i := faceUp (cards gs ! nat i)],
                flippedCards := flippedCards gs @ [faceUp (cards gs ! nat i)]\<rparr>))"
  using assms canFlipCard_D(3)[OF assms]
  by (simp add: handleCardFlip_def Let_def faceUp_def)

lemma processCardPair_match:
  assumes "flippedCards s = [card1, card2]" "card_id card1 \<noteq> []" "card_id card2 \<noteq> []"
    "cardsMatch card1 card2 (matchType s)"
  shows "processCardPair now1 now2 s =
    Inr (finishIfDone (s\<lparr>cards := markMatched card1 card2 (cards s),
            flippedCards := [],
            players := creditPlayer (currentPlayer s) card1 card2 (players s),
            matchedPairs := matchedPairs s @ [[card1, card2]],
            moveHistory := moveHistory s @
              [\<lparr>playerId = currentPlayer s, cardIds = [card_id card1, card_id card2],
                timestamp = now1, isMatch = True\<rparr>],
            currentPlayer := currentPlayer s, turnStartTime := Some now2\<rparr>))"
  using assms by (simp add: processCardPair_def Let_def finishIfDone_def)

lemma processCardPair_mismatch:
  assumes "flippedCards s = [card1, card2]" "card_id card1 \<noteq> []" "card_id card2 \<noteq> []"
    "\<not> cardsMatch card1 card2 (matchType s)"
    "(if gameMode s = gm_ai_vs_ai then Inr (currentPlayer s) else getNextPlayer s) = Inr n"
  shows "processCardPair now1 now2 s =
    Inr (finishIfDone (s\<lparr>cards := cards s, flippedCards := [card1, card2],
            players := players s, matchedPairs := matchedPairs s,
            moveHistory := moveHistory s @
              [\<lparr>playerId = currentPlayer s, cardIds = [card_id card1, card_id card2],
                timestamp = now1, isMatch = False\<rparr>],
            currentPlayer := n, turnStartTime := Some now2\<rparr>))"
  using assms by (simp add: processCardPair_def Let_def finishIfDone_def)

lemma processCardPair_throws:
  assumes "flippedCards s = [card1, card2]" "card_id card1 \<noteq> []" "card_id card2 \<noteq> []"
    "\<not> cardsMatch card1 card2 (matchType s)"
    "(if gameMode s = gm_ai_vs_ai then Inr (currentPlayer s) else getNextPlayer s) = Inl e"
  shows "processCardPair now1 now2 s = Inl e"
  using assms by (simp add: processCardPair_def Let_def)

lemma processCardPair_noid:
  assumes "flippedCards s = [card1, card2]" "card_id card1 = [] \<or> card_id card2 = []"
  shows "processCardPair now1 now2 s = Inr s"
  using assms by (simp add: processCardPair_def)

lemma flipState_fields [simp]:
  "cards (flipState gs i) = (cards gs)[nat i := faceUp (cards gs ! nat i)]"
  "flippedCards (flipState gs i) = flippedCards gs @ [faceUp (cards gs ! nat i)]"
  "players (flipState gs i) = players gs" "matchedPairs (flipState gs i) = matchedPairs gs"
  "moveHistory (flipState gs i) = moveHistory gs" "currentPlayer (flipState gs i) = currentPlayer gs"
  "gameMode (flipState gs i) = gameMode gs" "matchType (flipState gs i) = matchType gs"
  "gameStatus (flipState gs i) = gameStatus gs" "settings (flipState gs i) = settings gs"
  by (simp_all add: flipState_def)

lemma matchState_fields [simp]:
  "cards (matchState now1 now2 s c1 c2) = markMatched c1 c2 (cards s)"
  "flippedCards (matchState now1 now2 s c1 c2) = []"
  "players (matchState now1 now2 s c1 c2) = creditPlayer (currentPlayer s) c1 c2 (players s)"
  "matchedPairs (matchState now1 now2 s c1 c2) = matchedPairs s @ [[c1, c2]]"
  "moveHistory (matchState now1 now2 s c1 c2) = moveHistory s @
         [\<lparr>playerId = currentPlayer s, cardIds = [card_id c1, card_id c2],
           timestamp = now1, isMatch = True\<rparr>]"
  "currentPlayer (matchState now1 now2 s c1 c2) = currentPlayer s"
  "gameMode (matchState now1 now2 s c1 c2) = gameMode s"
  "matchType (matchState now1 now2 s c1 c2) = matchType s"
  "gameStatus (matchState now1 now2 s c1 c2) = gameStatus s"
  by (simp_all add: matchState_def)

lemma mismatchState_fields [simp]:
  "cards (mismatchState now1 now2 s c1 c2 n) = cards s"
  "flippedCards (mismatchState now1 now2 s c1 c2 n) = flippedCards s"
  "players (mismatchState now1 now2 s c1 c2 n) = players s"
  "matchedPairs (mismatchState now1 now2 s c1 c2 n) = matchedPairs s"
  "moveHistory (mismatchState now1 now2 s c1 c2 n) = moveHistory s @
         [\<lparr>playerId = currentPlayer s, cardIds = [card_id c1, card_id c2],
           timestamp = now1, isMatch = False\<rparr>]"
  "currentPlayer (mismatchState now1 now2 s c1 c2 n) = n"
  "gameMode (mismatchState now1 now2 s c1 c2 n) = gameMode s"
  "matchType (mismatchState now1 now2 s c1 c2 n) = matchType s"
  "gameStatus (mismatchState now1 now2 s c1 c2 n) = gameStatus s"
  by (simp_all add: mismatchState_def)

lemma finishIfDone_fields [simp]:
  "cards (finishIfDone s) = cards s" "flippedCards (finishIfDone s) = flippedCards s"
  "players (finishIfDone s) = players s" "matchedPairs (finishIfDone s) = matchedPairs s"
  "moveHistory (finishIfDone s) = moveHistory s" "currentPlayer (finishIfDone s) = currentPlayer s"
  "gameMode (finishIfDone s) = gameMode s" "matchType (finishIfDone s) = matchType s"
  by (simp_all add: finishIfDone_def)

lemma finishIfDone_status:
  "gameStatus (finishIfDone s) = (if list_all isMatched (cards s) then finished else gameStatus s)"
  by (simp add: finishIfDone_def isGameFinished_def)

lemma flip_plain:
  assumes "canFlipCard gs i" "length (flippedCards gs) \<noteq> 1"
  shows "handleCardFlip now1 now2 gs i = Inr (flipState gs i)"
  using assms by (simp add: handleCardFlip_accept flipState_def)

lemma flip_noid:
  assumes "canFlipCard gs i" "flippedCards gs = [card1]" "card_id card1 = []"
  shows "handleCardFlip now1 now2 gs i = Inr (flipState gs i)"
proof -
  have "flippedCards (flipState gs i) = [card1, faceUp (cards gs ! nat i)]" using assms by simp
  from processCardPair_noid[OF this, of now1 now2] assms
  show ?thesis by (simp add: handleCardFlip_accept flipState_def)
qed

lemma faceUp_id [simp]: "card_id (faceUp c) = card_id c" "isMatched (faceUp c) = isMatched c"
  "isFlipped (faceUp c)" "suit (faceUp c) = suit c" "rank (faceUp c) = rank c" "color (faceUp c) = color c"
  by (simp_all add: faceUp_def)

lemma flip_match:
  assumes "canFlipCard gs i" "flippedCards gs = [card1]" "card_id card1 \<noteq> []"
    "cardsMatch card1 (cards gs ! nat i) (matchType gs)"
  shows "handleCardFlip now1 now2 gs i =
    Inr (finishIfDone (matchState now1 now2 (flipState gs i) card1 (faceUp (cards gs ! nat i))))"
proof -
  have f: "flippedCards (flipState gs i) = [card1, faceUp (cards gs ! nat i)]" using assms by simp
  have "processCardPair now1 now2 (flipState gs i) =
    Inr (finishIfDone (matchState now1 now2 (flipState gs i) card1 (faceUp (cards gs ! nat i))))"
    unfolding matchState_def
    by (rule processCardPair_match[OF f]) (use assms canFlipCard_D(3)[OF assms(1)] in simp_all)
  then show ?thesis using assms by (simp add: handleCardFlip_accept flipState_def)
qed

lemma getNextPlayer_flipState: "getNextPlayer (flipState gs i) = getNextPlayer gs"
  by (simp add: getNextPlayer_def)

lemma flip_mismatch:
  assumes "canFlipCard gs i" "flippedCards gs = [card1]" "card_id card1 \<noteq> []"
    "\<not> cardsMatch card1 (cards gs ! nat i) (matchType gs)"
    "(if gameMode gs = gm_ai_vs_ai then Inr (currentPlayer gs) else getNextPlayer gs) = Inr n"
  shows "handleCardFlip now1 now2 gs i =
    Inr (finishIfDone (mismatchState now1 now2 (flipState gs i) card1 (faceUp (cards gs ! nat i)) n))"
proof -
  have f: "flippedCards (flipState gs i) = [card1, faceUp (cards gs ! nat i)]" using assms by simp
  have "processCardPair now1 now2 (flipState gs i) =
    Inr (finishIfDone ((flipState gs i)\<lparr>cards := cards (flipState gs i),
            flippedCards := [card1, faceUp (cards gs ! nat i)],
            players := players (flipState gs i), matchedPairs := matchedPairs (flipState gs i),
            moveHistory := moveHistory (flipState gs i) @
              [\<lparr>playerId = currentPlayer (flipState gs i),
                cardIds = [card_id card1, card_id (faceUp (cards gs ! nat i))],
                timestamp = now1, isMatch = False\<rparr>],
            currentPlayer := n, turnStartTime := Some now2\<rparr>))"
    by (rule processCardPair_mismatch[OF f])
       (use assms canFlipCard_D(3)[OF assms(1)] in \<open>simp_all add: getNextPlayer_flipState split: if_splits\<close>)
  moreover have "(flipState gs i)\<lparr>cards := cards (flipState gs i),
            flippedCards := [card1, faceUp (cards gs ! nat i)],
            players := players (flipState gs i), matchedPairs := matchedPairs (flipState gs i),
            moveHistory := moveHistory (flipState gs i) @
              [\<lparr>playerId = currentPlayer (flipState gs i),
                cardIds = [card_id card1, card_id (faceUp (cards gs ! nat i))],
                timestamp = now1, isMatch = False\<rparr>],
            currentPlayer := n, turnStartTime := Some now2\<rparr> =
      mismatchState now1 now2 (flipState gs i) card1 (faceUp (cards gs ! nat i)) n"
    using f by (simp add: mismatchState_def flipState_def)
  ultimately show ?thesis using assms by (simp add: handleCardFlip_accept flipState_def)
qed

lemma flip_throws:
  assumes "canFlipCard gs i" "flippedCards gs = [card1]" "card_id card1 \<noteq> []"
    "\<not> cardsMatch card1 (cards gs ! nat i) (matchType gs)"
    "(if gameMode gs = gm_ai_vs_ai then Inr (currentPlayer gs) else getNextPlayer gs) = Inl e"
  shows "handleCardFlip now1 now2 gs i = Inl e"
proof -
  have f: "flippedCards (flipState gs i) = [card1, faceUp (cards gs ! nat i)]" using assms by simp
  have "processCardPair now1 now2 (flipState gs i) = Inl e"
    by (rule processCardPair_throws[OF f])
       (use assms canFlipCard_D(3)[OF assms(1)] in \<open>simp_all add: getNextPlayer_flipState split: if_splits\<close>)
  then show ?thesis using assms by (simp add: handleCardFlip_accept flipState_def)
qed

text \<open>The forms of the state an accepted or refused flip returns.\<close>

lemma flip_forms:
  assumes "handleCardFlip now1 now2 gs i = Inr gs'"
  shows "gs' = gs \<or>
    (canFlipCard gs i \<and>
      (gs' = flipState gs i \<or>
       (\<exists>c1. flippedCards gs = [c1] \<and> card_id c1 \<noteq> [] \<and>
          ((cardsMatch c1 (cards gs ! nat i) (matchType gs) \<and>
            gs' = finishIfDone (matchState now1 now2 (flipState gs i) c1 (faceUp (cards gs ! nat i)))) \<or>
           (\<not> cardsMatch c1 (cards gs ! nat i) (matchType gs) \<and>
            (\<exists>n. (if gameMode gs = gm_ai_vs_ai then Inr (currentPlayer gs) else getNextPlayer gs) = Inr n \<and>
              gs' = finishIfDone (mismatchState now1 now2 (flipState gs i) c1
                     (faceUp (cards gs ! nat i)) n)))))))"
proof (cases "canFlipCard gs i")
  case False
  then show ?thesis using assms by (simp add: handleCardFlip_def)
next
  case True
  show ?thesis
  proof (cases "length (flippedCards gs) = 1")
    case False
    with True assms flip_plain show ?thesis by simp
  next
    case one: True
    then obtain c1 where c1: "flippedCards gs = [c1]"
      by (cases "flippedCards gs") simp_all
    show ?thesis
    proof (cases "card_id c1 = []")
      case True
      with \<open>canFlipCard gs i\<close> c1 assms flip_noid show ?thesis by simp
    next
      case id: False
      show ?thesis
      proof (cases "cardsMatch c1 (cards gs ! nat i) (matchType gs)")
        case True
        with \<open>canFlipCard gs i\<close> c1 id assms flip_match[of gs i c1 now1 now2] show ?thesis by simp
      next
        case mis: False
        show ?thesis
        proof (cases "if gameMode gs = gm_ai_vs_ai then Inr (currentPlayer gs) else getNextPlayer gs")
          case (Inl e)
          from flip_throws[OF \<open>canFlipCard gs i\<close> c1 id mis Inl, of now1 now2] assms
          show ?thesis by simp
        next
          case (Inr n)
          from flip_mismatch[OF \<open>canFlipCard gs i\<close> c1 id mis Inr, of now1 now2] assms
          have "gs' = finishIfDone (mismatchState now1 now2 (flipState gs i) c1
                     (faceUp (cards gs ! nat i)) n)" by simp
          with \<open>canFlipCard gs i\<close> c1 id mis Inr show ?thesis by blast
        qed
      qed
    qed
  qed
qed


lemma markMatched_length [simp]: "length (markMatched c1 c2 cs) = length cs"
  by (simp add: markMatched_def)






lemma matchedCount_update:
  assumes "k < length cs"
  shows "matchedCount (cs[k := c]) + (if isMatched (cs ! k) then 1 else 0) =
         matchedCount cs + (if isMatched c then 1 else 0)"
proof -
  have a: "cs[k := c] = take k cs @ c # drop (Suc k) cs"
    using assms by (rule upd_conv_take_nth_drop)
  have b: "cs = take k cs @ cs ! k # drop (Suc k) cs"
    using assms by (rule id_take_nth_drop)
  have "matchedCount (take k cs @ c # drop (Suc k) cs) + (if isMatched (cs ! k) then 1 else 0) =
        matchedCount (take k cs @ cs ! k # drop (Suc k) cs) + (if isMatched c then 1 else 0)"
    by (simp add: matchedCount_def)
  with a b show ?thesis by simp
qed

lemma matchedCount_same:
  "k < length cs \<Longrightarrow> isMatched c = isMatched (cs ! k) \<Longrightarrow> matchedCount (cs[k := c]) = matchedCount cs"
  using matchedCount_update[of k cs c] by simp

lemma matchedCount_new:
  "k < length cs \<Longrightarrow> \<not> isMatched (cs ! k) \<Longrightarrow> isMatched c \<Longrightarrow>
   matchedCount (cs[k := c]) = Suc (matchedCount cs)"
  using matchedCount_update[of k cs c] by simp

lemma distinct_ids_index:
  "distinct (map card_id cs) \<Longrightarrow> a < length cs \<Longrightarrow> b < length cs \<Longrightarrow>
   card_id (cs ! a) = card_id (cs ! b) \<Longrightarrow> a = b"
  by (metis distinct_conv_nth length_map nth_map)

lemma markMatched_two:
  assumes d: "distinct (map card_id cs)" and a: "a < length cs" and b: "b < length cs"
    and ia: "card_id (cs ! a) = card_id c1" and ib: "card_id (cs ! b) = card_id c2"
    and n1: "card_id c1 \<noteq> []" and n2: "card_id c2 \<noteq> []"
  shows "markMatched c1 c2 cs = cs[a := matchedUp (cs ! a), b := matchedUp (cs ! b)]"
proof (rule nth_equalityI)
  show "length (markMatched c1 c2 cs) = length (cs[a := matchedUp (cs ! a), b := matchedUp (cs ! b)])"
    by simp
next
  fix j
  assume "j < length (markMatched c1 c2 cs)"
  then have j: "j < length cs" by simp
  consider "j = b" | "j \<noteq> b" "j = a" | "j \<noteq> b" "j \<noteq> a" by blast
  then show "markMatched c1 c2 cs ! j = cs[a := matchedUp (cs ! a), b := matchedUp (cs ! b)] ! j"
  proof cases
    case 1
    then show ?thesis using b ib n1 n2 by (simp add: markMatched_def matchedUp_def)
  next
    case 2
    then show ?thesis using a ia n1 n2 by (simp add: markMatched_def matchedUp_def)
  next
    case 3
    have "card_id (cs ! j) \<noteq> card_id c1" using distinct_ids_index[OF d j a] ia 3 by auto
    moreover have "card_id (cs ! j) \<noteq> card_id c2" using distinct_ids_index[OF d j b] ib 3 by auto
    ultimately show ?thesis using 3 j by (simp add: markMatched_def)
  qed
qed

lemma markMatched_ids [simp]: "map card_id (markMatched c1 c2 cs) = map card_id cs"
  by (simp add: markMatched_def)

lemma sum_list_update_int:
  fixes xs :: "int list"
  shows "k < length xs \<Longrightarrow> sum_list (xs[k := v]) = sum_list xs - xs ! k + v"
proof (induction xs arbitrary: k)
  case Nil
  then show ?case by simp
next
  case (Cons x xs)
  then show ?case by (cases k) simp_all
qed

lemma map_update_same: "(map f ps)[k := f (ps ! k)] = map f ps"
proof (cases "k < length ps")
  case True
  then show ?thesis by (simp add: list_update_same_conv)
next
  case False
  then have "length (map f ps) \<le> k" by simp
  then show ?thesis by (rule list_update_beyond)
qed

lemma creditPlayer_ids [simp]: "map player_id (creditPlayer cur c1 c2 ps) = map player_id ps"
  and creditPlayer_types [simp]: "map ptype (creditPlayer cur c1 c2 ps) = map ptype ps"
  by (simp_all add: creditPlayer_def Let_def map_update map_update_same)

lemma creditPlayer_sum:
  assumes "cur \<in> set (map player_id ps)"
  shows "sumScores (creditPlayer cur c1 c2 ps) = sumScores ps + 1"
proof -
  let ?r = "findIndex (\<lambda>p. player_id p = cur) ps"
  have "?r \<noteq> - 1" using assms by (auto simp: findIndex_none)
  from findIndex_found[OF this] have r: "0 \<le> ?r" "nat ?r < length ps" by auto
  have "map score (creditPlayer cur c1 c2 ps) = (map score ps)[nat ?r := score (ps ! nat ?r) + 1]"
    using \<open>?r \<noteq> - 1\<close> by (simp add: creditPlayer_def Let_def map_update)
  then show ?thesis
    using r sum_list_update_int[of "nat ?r" "map score ps" "score (ps ! nat ?r) + 1"]
    by (simp add: sumScores_def)
qed

lemma wellFormed_D:
  assumes "wellFormed gs"
  shows "distinct (map card_id (cards gs))"
    "\<And>c. c \<in> set (cards gs) \<Longrightarrow> card_id c \<noteq> []"
    "\<And>c. c \<in> set (cards gs) \<Longrightarrow> isMatched c \<Longrightarrow> isFlipped c"
    "\<And>c. c \<in> set (flippedCards gs) \<Longrightarrow> c \<in> set (cards gs) \<and> isFlipped c \<and> \<not> isMatched c"
    "map player_id (players gs) = seatIds (gameMode gs)"
    "map ptype (players gs) = seatTypes (gameMode gs)"
    "currentPlayer gs \<in> set (seatIds (gameMode gs))"
    "sumScores (players gs) = int (length (matchedPairs gs))"
    "2 * sumScores (players gs) = int (matchedCount (cards gs))"
  using assms unfolding wellFormed_def list_all_iff by blast+

lemma wellFormed_I:
  assumes "distinct (map card_id (cards gs))"
    "\<And>c. c \<in> set (cards gs) \<Longrightarrow> card_id c \<noteq> [] \<and> (isMatched c \<longrightarrow> isFlipped c)"
    "\<And>c. c \<in> set (flippedCards gs) \<Longrightarrow> c \<in> set (cards gs) \<and> isFlipped c \<and> \<not> isMatched c"
    "map player_id (players gs) = seatIds (gameMode gs)"
    "map ptype (players gs) = seatTypes (gameMode gs)"
    "currentPlayer gs \<in> set (seatIds (gameMode gs))"
    "sumScores (players gs) = int (length (matchedPairs gs))"
    "2 * sumScores (players gs) = int (matchedCount (cards gs))"
  shows "wellFormed gs"
  using assms unfolding wellFormed_def list_all_iff by blast

lemma set_update_cases: "c \<in> set (xs[k := y]) \<Longrightarrow> c = y \<or> c \<in> set xs"
  using set_update_subset_insert[of xs k y] by auto

lemma set_update_keep: "c \<in> set xs \<Longrightarrow> c \<noteq> xs ! k \<Longrightarrow> c \<in> set (xs[k := y])"
  by (metis in_set_conv_nth length_list_update nth_list_update_neq)

lemma wellFormed_flipState:
  assumes w: "wellFormed gs" and f: "canFlipCard gs i"
  shows "wellFormed (flipState gs i)"
proof (rule wellFormed_I)
  note d = canFlipCard_D[OF f]
  note wd = wellFormed_D[OF w]
  let ?c2 = "faceUp (cards gs ! nat i)"
  have ids: "map card_id ((cards gs)[nat i := ?c2]) = map card_id (cards gs)"
    by (simp add: map_update list_update_same_conv d(2))
  show "distinct (map card_id (cards (flipState gs i)))" using wd(1) ids by simp
  show "card_id c \<noteq> [] \<and> (isMatched c \<longrightarrow> isFlipped c)" if "c \<in> set (cards (flipState gs i))" for c
  proof -
    from that have "c = ?c2 \<or> c \<in> set (cards gs)" using set_update_cases by fastforce
    then show ?thesis using wd(2,3) d(3) by auto
  qed
  show "c \<in> set (cards (flipState gs i)) \<and> isFlipped c \<and> \<not> isMatched c"
    if "c \<in> set (flippedCards (flipState gs i))" for c
  proof -
    from that consider "c = ?c2" | "c \<in> set (flippedCards gs)" by auto
    then show ?thesis
    proof cases
      case 1
      then show ?thesis using d(2,5) by (simp add: set_update_memI)
    next
      case 2
      then have c: "c \<in> set (cards gs)" "isFlipped c" "\<not> isMatched c" using wd(4) by simp_all
      then have "c \<noteq> cards gs ! nat i" using d(4) by auto
      with c show ?thesis by (simp add: set_update_keep)
    qed
  qed
  show "map player_id (players (flipState gs i)) = seatIds (gameMode (flipState gs i))"
    "map ptype (players (flipState gs i)) = seatTypes (gameMode (flipState gs i))"
    "currentPlayer (flipState gs i) \<in> set (seatIds (gameMode (flipState gs i)))"
    "sumScores (players (flipState gs i)) = int (length (matchedPairs (flipState gs i)))"
    using wd by simp_all
  show "2 * sumScores (players (flipState gs i)) = int (matchedCount (cards (flipState gs i)))"
    using wd(9) matchedCount_same[of "nat i" "cards gs" ?c2] d(2) by simp
qed

lemma wellFormed_matchState:
  assumes w: "wellFormed gs" and f: "canFlipCard gs i" and one: "flippedCards gs = [c1]"
  shows "wellFormed (matchState now1 now2 (flipState gs i) c1 (faceUp (cards gs ! nat i)))"
proof -
  note d = canFlipCard_D[OF f]
  note wd = wellFormed_D[OF w]
  let ?c2 = "faceUp (cards gs ! nat i)"
  let ?cs = "(cards gs)[nat i := ?c2]"
  let ?s = "flipState gs i"
  have ws: "wellFormed ?s" using w f by (rule wellFormed_flipState)
  note wsd = wellFormed_D[OF ws]
  from wd(4)[of c1] one have c1: "c1 \<in> set (cards gs)" "isFlipped c1" "\<not> isMatched c1" by simp_all
  then obtain k where k: "k < length (cards gs)" "cards gs ! k = c1" by (auto simp: in_set_conv_nth)
  have ki: "k \<noteq> nat i" using k c1 d(4) by auto
  have n1: "card_id c1 \<noteq> []" using wd(2) c1 by simp
  have n2: "card_id ?c2 \<noteq> []" using d(3) by simp
  have a: "k < length ?cs" "card_id (?cs ! k) = card_id c1" "\<not> isMatched (?cs ! k)"
    using k ki c1 by simp_all
  have b: "nat i < length ?cs" "card_id (?cs ! nat i) = card_id ?c2" "\<not> isMatched (?cs ! nat i)"
    using d(2,5) by simp_all
  have dist: "distinct (map card_id ?cs)" using wsd(1) by simp
  have mm: "markMatched c1 ?c2 ?cs = ?cs[k := matchedUp (?cs ! k), nat i := matchedUp (?cs ! nat i)]"
    using markMatched_two[OF dist a(1) b(1) a(2) b(2) n1 n2] .
  have cnt: "matchedCount (markMatched c1 ?c2 ?cs) = matchedCount (cards gs) + 2"
  proof -
    have "matchedCount (?cs[k := matchedUp (?cs ! k)]) = Suc (matchedCount ?cs)"
      using matchedCount_new[OF a(1) a(3)] by (simp add: matchedUp_def)
    moreover have "\<not> isMatched (?cs[k := matchedUp (?cs ! k)] ! nat i)" using b(3) ki by simp
    ultimately have "matchedCount (?cs[k := matchedUp (?cs ! k), nat i := matchedUp (?cs ! nat i)]) =
        Suc (Suc (matchedCount ?cs))"
      using matchedCount_new[of "nat i" "?cs[k := matchedUp (?cs ! k)]" "matchedUp (?cs ! nat i)"] b(1)
      by (simp add: matchedUp_def)
    moreover have "matchedCount ?cs = matchedCount (cards gs)"
      using matchedCount_same[of "nat i" "cards gs" ?c2] d(2) by simp
    ultimately show ?thesis using mm by simp
  qed
  have cur: "currentPlayer gs \<in> set (map player_id (players gs))" using wd(5,7) by simp
  show ?thesis
  proof (rule wellFormed_I)
    show "distinct (map card_id (cards (matchState now1 now2 ?s c1 ?c2)))" using dist by simp
    show "card_id c \<noteq> [] \<and> (isMatched c \<longrightarrow> isFlipped c)"
      if "c \<in> set (cards (matchState now1 now2 ?s c1 ?c2))" for c
    proof -
      from that obtain c0 where c0: "c0 \<in> set ?cs" and c: "c = c0 \<or> c = matchedUp c0"
        by (auto simp: markMatched_def matchedUp_def split: if_splits)
      from wsd(2,3)[of c0] c0 have "card_id c0 \<noteq> []" "isMatched c0 \<longrightarrow> isFlipped c0" by simp_all
      with c show ?thesis by (auto simp: matchedUp_def)
    qed
    show "c \<in> set (cards (matchState now1 now2 ?s c1 ?c2)) \<and> isFlipped c \<and> \<not> isMatched c"
      if "c \<in> set (flippedCards (matchState now1 now2 ?s c1 ?c2))" for c
      using that by simp
    show "map player_id (players (matchState now1 now2 ?s c1 ?c2)) =
        seatIds (gameMode (matchState now1 now2 ?s c1 ?c2))"
      "map ptype (players (matchState now1 now2 ?s c1 ?c2)) =
        seatTypes (gameMode (matchState now1 now2 ?s c1 ?c2))"
      "currentPlayer (matchState now1 now2 ?s c1 ?c2) \<in>
        set (seatIds (gameMode (matchState now1 now2 ?s c1 ?c2)))"
      using wd(5,6,7) by simp_all
    show "sumScores (players (matchState now1 now2 ?s c1 ?c2)) =
        int (length (matchedPairs (matchState now1 now2 ?s c1 ?c2)))"
      using creditPlayer_sum[OF cur] wd(8) by simp
    show "2 * sumScores (players (matchState now1 now2 ?s c1 ?c2)) =
        int (matchedCount (cards (matchState now1 now2 ?s c1 ?c2)))"
      using creditPlayer_sum[OF cur] wd(9) cnt by simp
  qed
qed

lemma wellFormed_mismatchState:
  assumes "wellFormed s" "n \<in> set (seatIds (gameMode s))"
  shows "wellFormed (mismatchState now1 now2 s c1 c2 n)"
  using assms unfolding wellFormed_def by simp

lemma wellFormed_finishIfDone: "wellFormed s \<Longrightarrow> wellFormed (finishIfDone s)"
  unfolding wellFormed_def by simp

lemma getNextPlayer_seated:
  assumes "getNextPlayer gs = Inr n"
  shows "n \<in> set (map player_id (players gs))"
proof -
  from assms have ne: "players gs \<noteq> []" by (auto simp: getNextPlayer_def Let_def split: if_splits)
  let ?j = "nat ((findIndex (\<lambda>p. player_id p = currentPlayer gs) (players gs) + 1)
                 mod int (length (players gs)))"
  have "?j < length (players gs)" using ne by (simp add: nat_less_iff)
  moreover have "n = player_id (players gs ! ?j)"
    using assms ne by (simp add: getNextPlayer_def Let_def)
  ultimately show ?thesis by (metis length_map nth_map nth_mem)
qed

lemma wellFormed_flip:
  assumes w: "wellFormed gs" and h: "handleCardFlip now1 now2 gs i = Inr gs'"
  shows "wellFormed gs'"
proof -
  note wd = wellFormed_D[OF w]
  from flip_forms[OF h] consider "gs' = gs"
    | "canFlipCard gs i" "gs' = flipState gs i"
    | c1 where "canFlipCard gs i" "flippedCards gs = [c1]"
        "gs' = finishIfDone (matchState now1 now2 (flipState gs i) c1 (faceUp (cards gs ! nat i)))"
    | c1 n where "canFlipCard gs i" "flippedCards gs = [c1]"
        "(if gameMode gs = gm_ai_vs_ai then Inr (currentPlayer gs) else getNextPlayer gs) = Inr n"
        "gs' = finishIfDone (mismatchState now1 now2 (flipState gs i) c1 (faceUp (cards gs ! nat i)) n)"
    by blast
  then show ?thesis
  proof cases
    case 1
    then show ?thesis using w by simp
  next
    case 2
    then show ?thesis using w wellFormed_flipState by simp
  next
    case 3
    then show ?thesis using w wellFormed_matchState wellFormed_finishIfDone by simp
  next
    case 4
    have "n \<in> set (seatIds (gameMode gs))"
      using 4(3) wd(5,7) getNextPlayer_seated[of gs n] by (auto split: if_splits)
    then have "wellFormed (mismatchState now1 now2 (flipState gs i) c1 (faceUp (cards gs ! nat i)) n)"
      using wellFormed_flipState[OF w 4(1)] by (intro wellFormed_mismatchState) simp_all
    then show ?thesis using 4(4) wellFormed_finishIfDone by simp
  qed
qed

subsection \<open>Resets and pauses\<close>

lemma wellFormed_remap:
  assumes w: "wellFormed gs" and n: "currentPlayer s \<in> set (seatIds (gameMode gs))"
    and g: "\<And>c. card_id (g c) = card_id c \<and> isMatched (g c) = isMatched c \<and> (isMatched c \<longrightarrow> g c = c)"
    and s: "cards s = map g (cards gs)" "flippedCards s = []" "players s = players gs"
      "gameMode s = gameMode gs" "matchedPairs s = matchedPairs gs"
  shows "wellFormed s"
proof (rule wellFormed_I)
  note wd = wellFormed_D[OF w]
  have g1: "\<And>c. card_id (g c) = card_id c" and g2: "\<And>c. isMatched (g c) = isMatched c"
    using g by simp_all
  have ids: "map card_id (map g (cards gs)) = map card_id (cards gs)" by (simp add: g1 comp_def)
  show "distinct (map card_id (cards s))" unfolding s(1) ids by (rule wd(1))
  show "card_id c \<noteq> [] \<and> (isMatched c \<longrightarrow> isFlipped c)" if "c \<in> set (cards s)" for c
  proof -
    from that s(1) obtain c0 where c0: "c0 \<in> set (cards gs)" "c = g c0" by auto
    with wd(2,3)[of c0] g[of c0] show ?thesis by auto
  qed
  show "c \<in> set (cards s) \<and> isFlipped c \<and> \<not> isMatched c" if "c \<in> set (flippedCards s)" for c
    using that s(2) by simp
  show "map player_id (players s) = seatIds (gameMode s)"
    "map ptype (players s) = seatTypes (gameMode s)"
    "currentPlayer s \<in> set (seatIds (gameMode s))"
    "sumScores (players s) = int (length (matchedPairs s))"
    using wd n s by simp_all
  have "filter isMatched (map g (cards gs)) = map g (filter isMatched (cards gs))"
    by (simp add: filter_map comp_def g2)
  then have "matchedCount (map g (cards gs)) = matchedCount (cards gs)"
    by (simp add: matchedCount_def)
  then show "2 * sumScores (players s) = int (matchedCount (cards s))" using wd(9) s by simp
qed

lemma wellFormed_delayed_reset: "wellFormed gs \<Longrightarrow> wellFormed (resetFlippedCardsWithDelay gs)"
proof -
  assume w: "wellFormed gs"
  show ?thesis
    by (rule wellFormed_remap[OF w, where g = "\<lambda>card. if isFlipped card \<and> \<not> isMatched card
      then card\<lparr>isFlipped := False\<rparr> else card"])
       (use wellFormed_D(7)[OF w] in \<open>simp_all add: resetFlippedCardsWithDelay_def resetFlippedCards_def\<close>)
qed

lemma wellFormed_human_reset: "wellFormed gs \<Longrightarrow> wellFormed (flipCardReset gs)"
proof -
  assume w: "wellFormed gs"
  show ?thesis
    by (rule wellFormed_remap[OF w, where g = "\<lambda>card.
        if card_id card = [] then card
        else if isMatched card then card
        else if isFlipped card \<and> \<not> isMatched card then card\<lparr>isFlipped := False\<rparr>
        else card"])
       (use wellFormed_D(7)[OF w] in \<open>simp_all add: flipCardReset_def hookResetCards_def\<close>)
qed

lemma two_seats:
  assumes "map player_id ps = [a, b]" "map ptype ps = [x, y]"
  obtains p q where "ps = [p, q]" "player_id p = a" "player_id q = b" "ptype p = x" "ptype q = y"
  using assms by (cases ps; cases "tl ps") auto

lemma ai_reset_seated:
  assumes w: "wellFormed gs"
  shows "currentPlayer (scheduleAIMoveReset gs) \<in> set (seatIds (gameMode gs))"
proof (cases "gameMode gs")
  case gm_ai
  with wellFormed_D(5,6)[OF w] have "map player_id (players gs) = [''player1'', ''ai'']"
    "map ptype (players gs) = [human, ai]" by simp_all
  then obtain p q where "players gs = [p, q]" "player_id p = ''player1''" "ptype p = human"
    by (rule two_seats)
  with gm_ai show ?thesis by (simp add: scheduleAIMoveReset_def)
next
  case gm_local_multiplayer
  with wellFormed_D(5,6)[OF w] have "map player_id (players gs) = [''player1'', ''player2'']"
    "map ptype (players gs) = [human, human]" by simp_all
  then obtain p q where "players gs = [p, q]" "player_id p = ''player1''" "ptype p = human"
    by (rule two_seats)
  with gm_local_multiplayer show ?thesis by (simp add: scheduleAIMoveReset_def)
next
  case gm_ai_vs_ai
  then show ?thesis by (simp add: scheduleAIMoveReset_def)
qed

lemma wellFormed_ai_reset: "wellFormed gs \<Longrightarrow> wellFormed (scheduleAIMoveReset gs)"
proof -
  assume w: "wellFormed gs"
  show ?thesis
    by (rule wellFormed_remap[OF w, where g = "\<lambda>card.
        if card_id card = [] then card
        else if isMatched card then card
        else if isFlipped card \<and> \<not> isMatched card then card\<lparr>isFlipped := False\<rparr>
        else card"])
       (use ai_reset_seated[OF w] in \<open>simp_all add: scheduleAIMoveReset_def hookResetCards_def Let_def\<close>)
qed

lemma wellFormed_pause:
  "wellFormed gs \<Longrightarrow> wellFormed (toggleGamePause now gs)"
  "wellFormed gs \<Longrightarrow> wellFormed (togglePause gs)"
  unfolding wellFormed_def by (simp_all add: toggleGamePause_def togglePause_def Let_def)

lemma wellFormed_step:
  assumes "wellFormed gs" "any_step gs gs'"
  shows "wellFormed gs'"
  using assms(2) unfolding any_step_def
proof
  assume "play_step gs gs'"
  then show ?thesis using assms(1)
    by cases (simp_all add: wellFormed_flip wellFormed_delayed_reset wellFormed_human_reset
        wellFormed_ai_reset)
next
  assume "pause_step gs gs'"
  then show ?thesis using assms(1) by cases (simp_all add: wellFormed_pause)
qed

subsection \<open>The new game\<close>

lemma generatePairs_fresh:
  "list_all (\<lambda>c. \<not> isFlipped c \<and> \<not> isMatched c) acc \<Longrightarrow>
   list_all (\<lambda>c. \<not> isFlipped c \<and> \<not> isMatched c) (fst (generatePairs k i c mt rs acc))"
  by (induction k arbitrary: i c rs acc) (simp_all add: Let_def mkCard_def split: prod.splits)

lemma card_ids_distinct: "distinct (map (\<lambda>n. ''card-'' @ string_of_nat n) xs) = distinct xs"
proof -
  have "inj_on (\<lambda>n. ''card-'' @ string_of_nat n) (set xs)"
    by (rule inj_onI) (simp add: string_of_nat_inj)
  then show ?thesis by (simp add: distinct_map)
qed

lemma reposition_set:
  "c' \<in> set (reposition cs) \<Longrightarrow> \<exists>c \<in> set cs. \<exists>p. c' = c\<lparr>position := p\<rparr>"
proof -
  assume "c' \<in> set (reposition cs)"
  then obtain n where "n < length cs" "c' = (cs ! n)\<lparr>position := int n\<rparr>"
    unfolding reposition_def by (auto simp: in_set_zip)
  then have "cs ! n \<in> set cs \<and> c' = (cs ! n)\<lparr>position := int n\<rparr>" by simp
  then show ?thesis by blast
qed

lemma deck_fresh:
  assumes "c \<in> set (fst (generateGameCards bs mt rs))"
  shows "\<not> isFlipped c \<and> \<not> isMatched c \<and> card_id c \<noteq> []"
proof -
  obtain cs rs1 where g: "generatePairs (total (getBoardDimensions bs) div 2) 0 0 mt rs [] = (cs, rs1)"
    by (cases "generatePairs (total (getBoardDimensions bs) div 2) 0 0 mt rs []")
  obtain sh rs2 where s: "shuffleArray cs rs1 = (sh, rs2)" by (cases "shuffleArray cs rs1")
  have deck: "fst (generateGameCards bs mt rs) = reposition sh"
    by (simp add: generateGameCards_def Let_def g s)
  have "mset sh = mset cs" using shuffleArray_mset[of cs rs1] s by simp
  then have set: "set sh = set cs" by (rule mset_eq_setD)
  have fresh: "list_all (\<lambda>c. \<not> isFlipped c \<and> \<not> isMatched c) cs"
    using generatePairs_fresh[of "[]" "total (getBoardDimensions bs) div 2" 0 0 mt rs] g by simp
  have ids: "map card_id cs = map (\<lambda>n. ''card-'' @ string_of_nat n) [0..<2 * (total (getBoardDimensions bs) div 2)]"
    using generatePairs_ids[of "total (getBoardDimensions bs) div 2" 0 0 mt rs "[]"] g by simp
  from assms deck obtain c0 p where c0: "c0 \<in> set cs" "c = c0\<lparr>position := p\<rparr>"
    using reposition_set set by fastforce
  have "card_id c0 \<in> set (map card_id cs)" using c0(1) by simp
  then have "card_id c0 \<noteq> []" unfolding ids by auto
  moreover have "\<not> isFlipped c0 \<and> \<not> isMatched c0" using fresh c0(1) by (simp add: list_all_iff)
  ultimately show ?thesis using c0(2) by simp
qed

lemma deck_distinct: "distinct (map card_id (fst (generateGameCards bs mt rs)))"
proof -
  obtain cs rs1 where g: "generatePairs (total (getBoardDimensions bs) div 2) 0 0 mt rs [] = (cs, rs1)"
    by (cases "generatePairs (total (getBoardDimensions bs) div 2) 0 0 mt rs []")
  obtain sh rs2 where s: "shuffleArray cs rs1 = (sh, rs2)" by (cases "shuffleArray cs rs1")
  have deck: "fst (generateGameCards bs mt rs) = reposition sh"
    by (simp add: generateGameCards_def Let_def g s)
  have "mset sh = mset cs" using shuffleArray_mset[of cs rs1] s by simp
  then have "mset (map card_id sh) = mset (map card_id cs)" by simp
  then have "distinct (map card_id sh) = distinct (map card_id cs)"
    by (rule mset_eq_imp_distinct_iff)
  moreover have "distinct (map card_id cs)"
  proof -
    have "map card_id cs = map card_id ([] :: Card list) @ map (\<lambda>n. ''card-'' @ string_of_nat n)
        [0..<0 + 2 * (total (getBoardDimensions bs) div 2)]"
      using generatePairs_ids[of "total (getBoardDimensions bs) div 2" 0 0 mt rs "[]"] g
      by (simp only: fst_conv)
    then show ?thesis by (simp only: list.map append_Nil card_ids_distinct distinct_upt)
  qed
  ultimately show ?thesis by (simp add: deck reposition_ids)
qed

lemma initialPlayers_seats:
  "map player_id (initialPlayers gm p1 p2 d1 d2) = seatIds gm"
  "map ptype (initialPlayers gm p1 p2 d1 d2) = seatTypes gm"
  "sumScores (initialPlayers gm p1 p2 d1 d2) = 0"
  by (cases gm; simp add: initialPlayers_def sumScores_def)+

lemma wellFormed_init:
  "wellFormed (initializeGame gm mt bs p1 p2 d1 d2 rs now1 now2)"
proof (rule wellFormed_I)
  let ?s = "initializeGame gm mt bs p1 p2 d1 d2 rs now1 now2"
  have c: "cards ?s = fst (generateGameCards bs mt rs)" by (simp add: initializeGame_def)
  show "distinct (map card_id (cards ?s))" unfolding c by (rule deck_distinct)
  show "card_id c \<noteq> [] \<and> (isMatched c \<longrightarrow> isFlipped c)" if "c \<in> set (cards ?s)" for c
    using that deck_fresh[of c bs mt rs] unfolding c by simp
  show "c \<in> set (cards ?s) \<and> isFlipped c \<and> \<not> isMatched c" if "c \<in> set (flippedCards ?s)" for c
    using that by (simp add: initializeGame_def)
  show "map player_id (players ?s) = seatIds (gameMode ?s)"
    "map ptype (players ?s) = seatTypes (gameMode ?s)"
    by (simp_all add: initializeGame_def initialPlayers_seats)
  show "currentPlayer ?s \<in> set (seatIds (gameMode ?s))"
    by (cases gm) (simp_all add: initializeGame_def)
  show "sumScores (players ?s) = int (length (matchedPairs ?s))"
    by (simp add: initializeGame_def initialPlayers_seats)
  have "filter isMatched (fst (generateGameCards bs mt rs)) = []"
    using deck_fresh[of _ bs mt rs] by (simp add: filter_empty_conv)
  then show "2 * sumScores (players ?s) = int (matchedCount (cards ?s))"
    by (simp add: initializeGame_def initialPlayers_seats matchedCount_def)
qed

lemma reachable_wellFormed: "reachable any_step gs \<Longrightarrow> wellFormed gs"
  by (induction rule: reachable.induct) (simp_all add: wellFormed_init wellFormed_step)

lemma reachable_play_any: "reachable play_step gs \<Longrightarrow> reachable any_step gs"
proof (induction rule: reachable.induct)
  case (start gm mt bs player1Name player2Name aiDiff ai2Diff rs now1 now2)
  show ?case by (rule reachable.start)
next
  case (after gs gs')
  have "any_step gs gs'" using after.hyps(2) by (simp add: any_step_def)
  with after.IH show ?case by (rule reachable.after)
qed

subsection \<open>Matched cards stay\<close>

lemma keepsAll_refl: "keepsAll cs cs"
  by (simp add: keepsAll_def keeps_def)

lemma keepsAll_trans: "keepsAll as bs \<Longrightarrow> keepsAll bs cs \<Longrightarrow> keepsAll as cs"
  by (simp add: keepsAll_def keeps_def)

lemma nth_faceUp:
  "j < length cs \<Longrightarrow> cs[k := faceUp (cs ! k)] ! j = (if j = k then faceUp (cs ! j) else cs ! j)"
  by (cases "j = k") simp_all

lemma keepsAll_faceUp: "keepsAll cs (cs[k := faceUp (cs ! k)])"
  by (simp add: keepsAll_def keeps_def nth_faceUp)

lemma keepsAll_markMatched: "keepsAll cs (markMatched c1 c2 cs)"
  by (simp add: keepsAll_def keeps_def markMatched_def)

lemma keepsAll_resetFlippedCards: "keepsAll cs (resetFlippedCards cs)"
  by (simp add: keepsAll_def keeps_def resetFlippedCards_def)

lemma keepsAll_hookResetCards: "keepsAll cs (hookResetCards cs)"
  by (simp add: keepsAll_def keeps_def hookResetCards_def)

lemma keepsAll_flip:
  assumes "handleCardFlip now1 now2 gs i = Inr gs'"
  shows "keepsAll (cards gs) (cards gs')"
proof -
  have a: "keepsAll (cards gs) (cards (flipState gs i))" by (simp add: keepsAll_faceUp)
  have b: "keepsAll (cards gs) (markMatched c1 c2 (cards (flipState gs i)))" for c1 c2
    using a keepsAll_markMatched keepsAll_trans by blast
  from flip_forms[OF assms] consider "gs' = gs" | "gs' = flipState gs i"
    | c1 where "gs' = finishIfDone (matchState now1 now2 (flipState gs i) c1 (faceUp (cards gs ! nat i)))"
    | c1 n where "gs' = finishIfDone (mismatchState now1 now2 (flipState gs i) c1 (faceUp (cards gs ! nat i)) n)"
    by blast
  then show ?thesis
  proof cases
    case 1
    then show ?thesis by (simp add: keepsAll_refl)
  next
    case 2
    then show ?thesis using a by simp
  next
    case 3
    then show ?thesis using b by simp
  next
    case 4
    then show ?thesis using a by simp
  qed
qed

lemma keepsAll_step:
  assumes "any_step gs gs'"
  shows "keepsAll (cards gs) (cards gs')"
  using assms unfolding any_step_def
proof
  assume "play_step gs gs'"
  then show ?thesis
    by cases
      (simp_all add: keepsAll_flip resetFlippedCardsWithDelay_def flipCardReset_def
        scheduleAIMoveReset_def Let_def keepsAll_resetFlippedCards keepsAll_hookResetCards)
next
  assume "pause_step gs gs'"
  then show ?thesis
    by cases (simp_all add: toggleGamePause_def togglePause_def Let_def keepsAll_refl)
qed

text \<open>
  Claim C7. Every transition, a flip, each of the three resets after a mismatch and each
  of the two pause toggles, leaves the board its length and every card its id, and leaves
  a matched card matched and, if it is face up, face up. In a state that the transitions
  reach from a new game a matched card is face up, so it is matched and face up after the
  transition too.
\<close>

theorem C7_matched_cards_stay:
  assumes "any_step gs gs'" and "k < length (cards gs)" and "isMatched (cards gs ! k)"
  shows "length (cards gs') = length (cards gs) \<and>
     card_id (cards gs' ! k) = card_id (cards gs ! k) \<and>
     isMatched (cards gs' ! k) \<and>
     (isFlipped (cards gs ! k) \<longrightarrow> isFlipped (cards gs' ! k)) \<and>
     (reachable any_step gs \<longrightarrow> isFlipped (cards gs ! k) \<and> isFlipped (cards gs' ! k))"
proof -
  from keepsAll_step[OF assms(1)] assms(2,3)
  have a: "length (cards gs') = length (cards gs)" "card_id (cards gs' ! k) = card_id (cards gs ! k)"
    "isMatched (cards gs' ! k)" "isFlipped (cards gs ! k) \<longrightarrow> isFlipped (cards gs' ! k)"
    by (simp_all add: keepsAll_def keeps_def)
  have "isFlipped (cards gs ! k)" if "reachable any_step gs"
    using wellFormed_D(3)[OF reachable_wellFormed[OF that], of "cards gs ! k"] assms(2,3) by simp
  with a show ?thesis by blast
qed

subsection \<open>Games that are played\<close>

lemma reachable_playFlips:
  "reachable play_step gs \<Longrightarrow> reachable play_step (playFlips gs flips)"
proof (induction flips arbitrary: gs)
  case Nil
  then show ?case by (simp add: playFlips_def)
next
  case (Cons i flips)
  have step: "playFlips gs (i # flips) =
      playFlips (case handleCardFlip 0 0 gs i of Inr s' \<Rightarrow> s' | Inl e \<Rightarrow> gs) flips"
    by (simp add: playFlips_def)
  show ?case
  proof (cases "handleCardFlip 0 0 gs i")
    case (Inl e)
    then show ?thesis using Cons step by simp
  next
    case (Inr s')
    then have "play_step gs s'" by (rule play_step.flip)
    with Cons.prems have "reachable play_step s'" by (rule reachable.after)
    then show ?thesis using Cons.IH step Inr by simp
  qed
qed

lemma demo_reachable:
  "reachable play_step demoGame" "reachable play_step demoFlipped" "reachable play_step demoAiGame"
  "reachable play_step demoMismatch" "reachable play_step demoFinished"
  "reachable play_step demoAiFlipped"
  unfolding demoFlipped_def demoMismatch_def demoFinished_def demoAiFlipped_def
  by (simp_all add: demoGame_def demoAiGame_def reachable.start reachable_playFlips)

theorem C7_matched_cards_stay_witness:
  "any_step demoMismatch (scheduleAIMoveReset demoMismatch) \<and>
   0 < length (cards demoMismatch) \<and> isMatched (cards demoMismatch ! 0) \<and>
   reachable any_step demoMismatch \<and>
   isMatched (cards (scheduleAIMoveReset demoMismatch) ! 0) \<and>
   isFlipped (cards (scheduleAIMoveReset demoMismatch) ! 0) \<and>
   isFlipped (cards demoMismatch ! 2) \<and>
   \<not> isFlipped (cards (scheduleAIMoveReset demoMismatch) ! 2)"
proof -
  have s: "any_step demoMismatch (scheduleAIMoveReset demoMismatch)"
    by (simp add: any_step_def play_step.ai_reset)
  have l: "0 < length (cards demoMismatch)" by code_simp
  have m: "isMatched (cards demoMismatch ! 0)" by code_simp
  have r: "reachable any_step demoMismatch" using demo_reachable(4) by (rule reachable_play_any)
  have u: "isFlipped (cards demoMismatch ! 2)" by code_simp
  have d: "\<not> isFlipped (cards (scheduleAIMoveReset demoMismatch) ! 2)" by code_simp
  from C7_matched_cards_stay [OF s l m] r
  have "isMatched (cards (scheduleAIMoveReset demoMismatch) ! 0) \<and>
        isFlipped (cards (scheduleAIMoveReset demoMismatch) ! 0)" by blast
  with s l m r u d show ?thesis by blast
qed

text \<open>
  Claim C6. In every state that flips and resets after a mismatch reach from a new game,
  the scores of the players add up to the number of matched pairs, and twice that sum is
  the number of matched cards.
\<close>

theorem C6_score_invariant:
  assumes "reachable play_step gs"
  shows "sumScores (players gs) = int (length (matchedPairs gs)) \<and>
         2 * sumScores (players gs) = int (matchedCount (cards gs))"
  using wellFormed_D(8,9)[OF reachable_wellFormed[OF reachable_play_any[OF assms]]] by simp

theorem C6_score_invariant_witness:
  "reachable play_step demoFinished \<and> sumScores (players demoFinished) = 8 \<and>
   length (matchedPairs demoFinished) = 8 \<and> matchedCount (cards demoFinished) = 16 \<and>
   reachable play_step demoMismatch \<and> sumScores (players demoMismatch) = 1 \<and>
   length (matchedPairs demoMismatch) = 1 \<and> matchedCount (cards demoMismatch) = 2"
proof -
  have a: "sumScores (players demoFinished) = 8" by code_simp
  have b: "sumScores (players demoMismatch) = 1" by code_simp
  from C6_score_invariant [OF demo_reachable(5)] a
  have "length (matchedPairs demoFinished) = 8 \<and> matchedCount (cards demoFinished) = 16" by simp
  moreover from C6_score_invariant [OF demo_reachable(4)] b
  have "length (matchedPairs demoMismatch) = 1 \<and> matchedCount (cards demoMismatch) = 2" by simp
  ultimately show ?thesis using a b demo_reachable(4,5) by simp
qed

subsection \<open>The finished game\<close>

lemma all_matched_faceUp: "list_all isMatched (cs[k := faceUp (cs ! k)]) = list_all isMatched cs"
  by (auto simp: list_all_length nth_faceUp)

lemma all_matched_remap:
  "(\<And>c. isMatched (g c) = isMatched c) \<Longrightarrow> list_all isMatched (map g cs) = list_all isMatched cs"
  by (simp add: list_all_iff)

lemma statusInv_flip:
  assumes v: "statusInv gs" and h: "handleCardFlip now1 now2 gs i = Inr gs'"
  shows "statusInv gs'"
proof -
  have fs: "statusInv (flipState gs i)" if "canFlipCard gs i"
    using v canFlipCard_D(6)[OF that] by (simp add: statusInv_def all_matched_faceUp)
  have mis: "statusInv (finishIfDone (mismatchState now1 now2 (flipState gs i) c1 c2 n))"
    if "canFlipCard gs i" for c1 c2 n
  proof -
    have "gameStatus gs = playing" using canFlipCard_D(6)[OF that] .
    then have "\<not> list_all isMatched (cards gs)" using v by (simp add: statusInv_def)
    then have "\<not> list_all isMatched (cards (mismatchState now1 now2 (flipState gs i) c1 c2 n))"
      by (simp add: all_matched_faceUp)
    then show ?thesis
      using \<open>gameStatus gs = playing\<close> by (simp add: statusInv_def finishIfDone_status)
  qed
  have mat: "statusInv (finishIfDone (matchState now1 now2 (flipState gs i) c1 c2))"
    if "canFlipCard gs i" for c1 c2
    using canFlipCard_D(6)[OF that] by (simp add: statusInv_def finishIfDone_status)
  from flip_forms[OF h] consider "gs' = gs" | "canFlipCard gs i" "gs' = flipState gs i"
    | c1 where "canFlipCard gs i"
        "gs' = finishIfDone (matchState now1 now2 (flipState gs i) c1 (faceUp (cards gs ! nat i)))"
    | c1 n where "canFlipCard gs i"
        "gs' = finishIfDone (mismatchState now1 now2 (flipState gs i) c1 (faceUp (cards gs ! nat i)) n)"
    by blast
  then show ?thesis
  proof cases
    case 1
    then show ?thesis using v by simp
  next
    case 2
    then show ?thesis using fs by simp
  next
    case 3
    then show ?thesis using mat by simp
  next
    case 4
    then show ?thesis using mis by simp
  qed
qed

lemma statusInv_play_step:
  assumes "statusInv gs" "play_step gs gs'"
  shows "statusInv gs'"
  using assms(2,1)
proof cases
  case (flip now1 now2 i)
  then show ?thesis using assms(1) statusInv_flip by simp
next
  case delayed_reset
  then show ?thesis using assms(1)
    by (auto simp: statusInv_def resetFlippedCardsWithDelay_def resetFlippedCards_def all_matched_remap)
next
  case human_reset
  then show ?thesis using assms(1)
    by (auto simp: statusInv_def flipCardReset_def hookResetCards_def all_matched_remap)
next
  case ai_reset
  then show ?thesis using assms(1)
    by (auto simp: statusInv_def scheduleAIMoveReset_def hookResetCards_def all_matched_remap Let_def)
qed

lemma statusInv_init: "statusInv (initializeGame gm mt bs p1 p2 d1 d2 rs now1 now2)"
proof -
  let ?deck = "fst (generateGameCards bs mt rs)"
  have "length ?deck = total (getBoardDimensions bs)" by (rule generateGameCards_length)
  then have "?deck \<noteq> []" using board_total[of bs] by auto
  then obtain c where "c \<in> set ?deck" by (cases ?deck) auto
  with deck_fresh[of c bs mt rs] have "\<not> list_all isMatched ?deck" by (auto simp: list_all_iff)
  then show ?thesis by (simp add: statusInv_def initializeGame_def)
qed

lemma reachable_statusInv: "reachable play_step gs \<Longrightarrow> statusInv gs"
  by (induction rule: reachable.induct) (simp_all add: statusInv_init statusInv_play_step)

lemma finished_play_step:
  assumes "gameStatus gs = finished" "play_step gs gs'"
  shows "gameStatus gs' = finished"
  using assms(2,1)
proof cases
  case (flip now1 now2 i)
  have "\<not> canFlipCard gs i" using assms(1) by (simp add: canFlipCard_iff)
  then show ?thesis using flip assms(1) by (simp add: handleCardFlip_def)
qed (simp_all add: resetFlippedCardsWithDelay_def flipCardReset_def scheduleAIMoveReset_def Let_def)

lemma finished_pause_step:
  assumes "gameStatus gs = finished" "pause_step gs gs'"
  shows "gameStatus gs' = paused"
  using assms(2,1) by cases (simp_all add: toggleGamePause_def togglePause_def Let_def)

text \<open>
  What holds of the status: in every state that flips and resets after a mismatch reach
  from a new game, the status is \<open>finished\<close> if and only if every card is matched; a flip
  or a reset of a finished state returns a finished state; and either pause toggle turns
  a finished state into a paused one.
\<close>

lemma finished_iff_all_matched:
  "(reachable play_step gs \<longrightarrow>
      (gameStatus gs = finished \<longleftrightarrow> list_all isMatched (cards gs)) \<and>
      isGameFinished gs = (gameStatus gs = finished)) \<and>
   (gameStatus gs = finished \<and> play_step gs gs' \<longrightarrow> gameStatus gs' = finished) \<and>
   (gameStatus gs = finished \<and> pause_step gs gs' \<longrightarrow> gameStatus gs' = paused)"
  using reachable_statusInv[of gs] finished_play_step[of gs gs'] finished_pause_step[of gs gs']
  by (auto simp: statusInv_def isGameFinished_def)

lemma finished_iff_all_matched_demo:
  "reachable play_step demoFinished \<and> gameStatus demoFinished = finished \<and>
   list_all isMatched (cards demoFinished) \<and>
   play_step demoFinished (scheduleAIMoveReset demoFinished) \<and>
   gameStatus (scheduleAIMoveReset demoFinished) = finished \<and>
   pause_step demoFinished (togglePause demoFinished) \<and>
   gameStatus (togglePause demoFinished) = paused \<and>
   reachable play_step demoMismatch \<and> gameStatus demoMismatch = playing \<and>
   \<not> list_all isMatched (cards demoMismatch)"
proof -
  have a: "gameStatus demoFinished = finished" by code_simp
  have b: "gameStatus demoMismatch = playing" by code_simp
  note r = play_step.ai_reset [of demoFinished]
  note t = pause_step.hook_toggle [of demoFinished]
  from finished_iff_all_matched [of demoFinished "scheduleAIMoveReset demoFinished"]
    demo_reachable(5) a r
  have c: "list_all isMatched (cards demoFinished)"
    "gameStatus (scheduleAIMoveReset demoFinished) = finished" by blast+
  from finished_iff_all_matched [of demoFinished "togglePause demoFinished"] a t
  have d: "gameStatus (togglePause demoFinished) = paused" by blast
  from finished_iff_all_matched [of demoMismatch demoMismatch] demo_reachable(4) b
  have e: "\<not> list_all isMatched (cards demoMismatch)" by simp
  show ?thesis using a b c d e r t demo_reachable(4,5) by simp
qed

text \<open>
  Claim C5. A finished game stays finished under every transition but a new game, the
  pause toggle included. Flips and resets keep it (\<open>finished_iff_all_matched\<close>); the pause
  toggle does not. The demo game played to its end is reached by flips, it is finished and
  all its cards are matched; the pause toggle returns a state whose status is \<open>paused\<close>
  with all cards matched, and a second toggle one whose status is \<open>playing\<close>.
\<close>

theorem C5_pause_leaves_finished:
  "reachable play_step demoFinished \<and> gameStatus demoFinished = finished \<and>
   list_all isMatched (cards demoFinished) \<and>
   pause_step demoFinished (toggleGamePause 0 demoFinished) \<and>
   gameStatus (toggleGamePause 0 demoFinished) = paused \<and>
   list_all isMatched (cards (toggleGamePause 0 demoFinished)) \<and>
   gameStatus (togglePause demoFinished) = paused \<and>
   gameStatus (toggleGamePause 0 (toggleGamePause 0 demoFinished)) = playing"
proof -
  have a: "gameStatus demoFinished = finished" by code_simp
  have b: "list_all isMatched (cards demoFinished)" by code_simp
  have c: "gameStatus (toggleGamePause 0 demoFinished) = paused" by code_simp
  have d: "list_all isMatched (cards (toggleGamePause 0 demoFinished))" by code_simp
  have e: "gameStatus (togglePause demoFinished) = paused" by code_simp
  have f: "gameStatus (toggleGamePause 0 (toggleGamePause 0 demoFinished)) = playing" by code_simp
  show ?thesis using a b c d e f demo_reachable(5) pause_step.logic_toggle by simp
qed

text \<open>
  In a state that the transitions reach from a new game, the hypotheses of the two
  resolutions hold: the one card of \<open>flippedCards\<close> is a face-up card of the board with an
  id, and the current player has a seat.
\<close>

lemma resolution_hypotheses:
  assumes "reachable any_step gs" and "flippedCards gs = [card1]"
  shows "\<exists>k p. k < length (cards gs) \<and> cards gs ! k = card1 \<and> isFlipped card1 \<and>
     card_id card1 \<noteq> [] \<and>
     findIndex (\<lambda>q. player_id q = currentPlayer gs) (players gs) = int p"
proof -
  note wd = wellFormed_D[OF reachable_wellFormed[OF assms(1)]]
  from wd(4)[of card1] assms(2) have c: "card1 \<in> set (cards gs)" "isFlipped card1" by simp_all
  then obtain k where k: "k < length (cards gs)" "cards gs ! k = card1"
    by (auto simp: in_set_conv_nth)
  have n: "card_id card1 \<noteq> []" using wd(2) c(1) by simp
  have "currentPlayer gs \<in> set (map player_id (players gs))" using wd(5,7) by simp
  then have "findIndex (\<lambda>q. player_id q = currentPlayer gs) (players gs) \<noteq> - 1"
    by (auto simp: findIndex_none)
  from findIndex_found[OF this]
  have "findIndex (\<lambda>q. player_id q = currentPlayer gs) (players gs) =
        int (nat (findIndex (\<lambda>q. player_id q = currentPlayer gs) (players gs)))" by simp
  with k c n show ?thesis by blast
qed

subsection \<open>Witnesses of the two resolutions\<close>



subsection \<open>Flips that are refused, and the moves of the AI\<close>

lemma reachable_ids:
  assumes "reachable any_step gs"
  shows "\<forall>c \<in> set (cards gs). card_id c \<noteq> []"
  using wellFormed_D(2)[OF reachable_wellFormed[OF assms]] by blast

text \<open>
  Claim C2. A flip that \<open>canFlipCard\<close> refuses returns the state it was given.
  \<open>canFlipCard\<close> holds exactly when the game is being played, the index is in bounds, the
  card there carries an id and is available, and fewer than two cards are face up. On a
  board whose cards all carry an id, and so in every state that the transitions reach from
  a new game, that is: playing, in bounds, available, fewer than two cards face up.
\<close>

theorem C2_flip_noop:
  "(\<not> canFlipCard gs i \<longrightarrow> handleCardFlip now1 now2 gs i = Inr gs) \<and>
   (canFlipCard gs i \<longleftrightarrow>
      gameStatus gs = playing \<and> 0 \<le> i \<and> i < int (length (cards gs)) \<and>
      card_id (cards gs ! nat i) \<noteq> [] \<and> available (cards gs ! nat i) \<and>
      length (flippedCards gs) < 2) \<and>
   ((\<forall>c \<in> set (cards gs). card_id c \<noteq> []) \<or> reachable any_step gs \<longrightarrow>
      (canFlipCard gs i \<longleftrightarrow>
         gameStatus gs = playing \<and> 0 \<le> i \<and> i < int (length (cards gs)) \<and>
         available (cards gs ! nat i) \<and> length (flippedCards gs) < 2))"
  using flip_noop[of gs i now1 now2] reachable_ids[of gs] by blast

theorem C2_flip_noop_witness:
  "\<not> canFlipCard demoGame 16 \<and> handleCardFlip 1 2 demoGame 16 = Inr demoGame \<and>
   reachable any_step demoGame \<and> canFlipCard demoGame 0 \<and>
   available (cards demoGame ! nat 0) \<and>
   gameStatus demoMismatch = playing \<and> available (cards demoMismatch ! nat 5) \<and>
   \<not> canFlipCard demoMismatch 5 \<and> handleCardFlip 1 2 demoMismatch 5 = Inr demoMismatch"
proof -
  have r: "reachable any_step demoGame" "reachable any_step demoMismatch"
    using demo_reachable(1,4) by (simp_all add: reachable_play_any)
  have a: "\<not> canFlipCard demoGame 16" by code_simp
  have b: "gameStatus demoGame = playing \<and> (0::int) \<le> 0 \<and> 0 < int (length (cards demoGame)) \<and>
         available (cards demoGame ! nat 0) \<and> length (flippedCards demoGame) < 2"
    by code_simp
  have c: "gameStatus demoMismatch = playing" "available (cards demoMismatch ! nat 5)"
    "\<not> length (flippedCards demoMismatch) < 2" by code_simp+
  from C2_flip_noop [of demoGame 16 1 2] a
  have d: "handleCardFlip 1 2 demoGame 16 = Inr demoGame" by blast
  from C2_flip_noop [of demoGame 0 1 2] r(1) b have e: "canFlipCard demoGame 0" by blast
  from C2_flip_noop [of demoMismatch 5 1 2] r(2) c
  have f: "\<not> canFlipCard demoMismatch 5" "handleCardFlip 1 2 demoMismatch 5 = Inr demoMismatch"
    by blast+
  show ?thesis using a b c d e f r by blast
qed

text \<open>
  Claim C1. Whatever the memory of the player, the draws, the match type and the move
  history, \<open>makeMove\<close> on a board with at least two available cards resolves to two
  distinct indices in bounds, each of a card that is neither face up nor matched. The
  player counts a card as available only if it carries an id (the first statement); on a
  board whose cards all carry an id that is the count of the cards neither face up nor
  matched (the second), and so it is on the board of every state that the transitions
  reach from a new game (the third).
\<close>

theorem C1_ai_move_legal:
  "(2 \<le> length (findStrictlyAvailableCards cs) \<longrightarrow> legalMove cs (fst (makeMove mem rs cs mt pm))) \<and>
   ((\<forall>c \<in> set cs. card_id c \<noteq> []) \<and> 2 \<le> length (filter available cs) \<longrightarrow>
      legalMove cs (fst (makeMove mem rs cs mt pm))) \<and>
   (reachable any_step gs \<and> 2 \<le> length (filter available (cards gs)) \<longrightarrow>
      legalMove (cards gs) (fst (makeMove mem rs (cards gs) mt pm)))"
  using ai_move_legal[of cs mem rs mt pm] ai_move_legal[of "cards gs" mem rs mt pm]
    reachable_ids[of gs]
  by blast

theorem C1_ai_move_legal_witness:
  "reachable any_step demoMismatch \<and>
   2 \<le> length (filter available (cards demoMismatch)) \<and>
   2 \<le> length (findStrictlyAvailableCards (cards demoMismatch)) \<and>
   legalMove (cards demoMismatch)
     (fst (makeMove (newAIPlayer expert) [3, 1, 4, 1, 5, 9, 2, 6, 5, 3, 5, 8, 9, 7, 9, 3, 2, 3, 8, 4]
        (cards demoMismatch) mt_color (moveHistory demoMismatch))) \<and>
   isMatched (cards demoMismatch ! 0) \<and> isFlipped (cards demoMismatch ! 2)"
proof -
  have r: "reachable any_step demoMismatch"
    using demo_reachable(4) by (rule reachable_play_any)
  have a: "2 \<le> length (filter available (cards demoMismatch))" by code_simp
  have b: "2 \<le> length (findStrictlyAvailableCards (cards demoMismatch))" by code_simp
  have c: "isMatched (cards demoMismatch ! 0)" "isFlipped (cards demoMismatch ! 2)" by code_simp+
  from C1_ai_move_legal [of "cards demoMismatch" "newAIPlayer expert"
      "[3, 1, 4, 1, 5, 9, 2, 6, 5, 3, 5, 8, 9, 7, 9, 3, 2, 3, 8, 4]" mt_color
      "moveHistory demoMismatch" demoMismatch] r a
  have "legalMove (cards demoMismatch)
     (fst (makeMove (newAIPlayer expert) [3, 1, 4, 1, 5, 9, 2, 6, 5, 3, 5, 8, 9, 7, 9, 3, 2, 3, 8, 4]
        (cards demoMismatch) mt_color (moveHistory demoMismatch)))"
    by blast
  with r a b c show ?thesis by blast
qed

subsection \<open>The hint\<close>

text \<open>No transition moves a card: the \<open>position\<close> field of a card is its index.\<close>

lemma position_faceUp: "map position (cs[k := faceUp (cs ! k)]) = map position cs"
proof -
  have "map position (cs[k := faceUp (cs ! k)]) = (map position cs)[k := position (cs ! k)]"
    by (simp add: map_update faceUp_def)
  then show ?thesis by (simp add: map_update_same)
qed

lemma position_markMatched: "map position (markMatched c1 c2 cs) = map position cs"
  by (simp add: markMatched_def)

lemma position_resetFlippedCards: "map position (resetFlippedCards cs) = map position cs"
  by (simp add: resetFlippedCards_def)

lemma position_hookResetCards: "map position (hookResetCards cs) = map position cs"
  by (simp add: hookResetCards_def)

lemma position_flip:
  assumes "handleCardFlip now1 now2 gs i = Inr gs'"
  shows "map position (cards gs') = map position (cards gs)"
proof -
  have a: "map position (cards (flipState gs i)) = map position (cards gs)"
    by (simp add: flipState_def position_faceUp)
  from flip_forms[OF assms] consider "gs' = gs" | "gs' = flipState gs i"
    | c1 where "gs' = finishIfDone (matchState now1 now2 (flipState gs i) c1 (faceUp (cards gs ! nat i)))"
    | c1 n where "gs' = finishIfDone (mismatchState now1 now2 (flipState gs i) c1 (faceUp (cards gs ! nat i)) n)"
    by blast
  then show ?thesis
  proof cases
    case 1
    then show ?thesis by simp
  next
    case 2
    then show ?thesis using a by simp
  next
    case 3
    then show ?thesis using a by (simp add: finishIfDone_def matchState_def position_markMatched)
  next
    case 4
    then show ?thesis using a by (simp add: finishIfDone_def mismatchState_def)
  qed
qed

lemma position_step:
  assumes "any_step gs gs'"
  shows "map position (cards gs') = map position (cards gs)"
  using assms unfolding any_step_def
proof
  assume "play_step gs gs'"
  then show ?thesis
    by cases
      (simp_all add: position_flip resetFlippedCardsWithDelay_def flipCardReset_def
        scheduleAIMoveReset_def Let_def position_resetFlippedCards position_hookResetCards)
next
  assume "pause_step gs gs'"
  then show ?thesis
    by cases (simp_all add: toggleGamePause_def togglePause_def Let_def)
qed

lemma position_reposition: "map position (reposition cs) = map int [0..<length cs]"
  unfolding reposition_def by (rule nth_equalityI) simp_all

lemma position_init:
  "map position (cards (initializeGame gm mt bs p1 p2 d1 d2 rs now1 now2)) =
   map int [0..<length (cards (initializeGame gm mt bs p1 p2 d1 d2 rs now1 now2))]"
proof -
  obtain cs rs1 where g: "generatePairs (total (getBoardDimensions bs) div 2) 0 0 mt rs [] = (cs, rs1)"
    by (cases "generatePairs (total (getBoardDimensions bs) div 2) 0 0 mt rs []")
  obtain sh rs2 where s: "shuffleArray cs rs1 = (sh, rs2)" by (cases "shuffleArray cs rs1")
  have deck: "cards (initializeGame gm mt bs p1 p2 d1 d2 rs now1 now2) = reposition sh"
    by (simp add: initializeGame_def generateGameCards_def Let_def g s)
  show ?thesis unfolding deck by (simp add: position_reposition reposition_length)
qed

lemma reachable_positions:
  "reachable any_step gs \<Longrightarrow> map position (cards gs) = map int [0..<length (cards gs)]"
proof (induction rule: reachable.induct)
  case (start gm mt bs player1Name player2Name aiDiff ai2Diff rs now1 now2)
  show ?case by (rule position_init)
next
  case (after gs gs')
  have p: "map position (cards gs') = map position (cards gs)"
    using after.hyps(2) by (rule position_step)
  then have "length (map position (cards gs')) = length (map position (cards gs))" by simp
  then have "length (cards gs') = length (cards gs)" by simp
  with p after.IH show ?case by simp
qed

lemma reachable_position:
  assumes "reachable any_step gs" and "k < length (cards gs)"
  shows "position (cards gs ! k) = int k"
proof -
  have "map position (cards gs) ! k = map int [0..<length (cards gs)] ! k"
    using reachable_positions[OF assms(1)] by simp
  then show ?thesis using assms(2) by simp
qed

text \<open>
  Claim C9, amended. \<open>getHint\<close> answers only where the setting \<open>hintsEnabled\<close> is on (which
  \<open>initializeGame\<close> turns on in a game of two humans only); where it is off the answer is
  \<open>null\<close>. Where it is on, the answer is \<open>null\<close> exactly when no two available cards of the
  board match; if two available cards match, the answer is the \<open>position\<close> fields of two
  available cards that match; and in every state that the transitions reach from a new
  game, where the \<open>position\<close> field of each card is its index on the board, the answer is
  the board positions \<open>i\<close> and \<open>j\<close> of two available cards that match. The function returns
  the hint alone; it has no state to change.
\<close>

theorem C9_hint_when_enabled:
  "(\<not> hintsEnabled (settings gs) \<longrightarrow> getHint gs = None) \<and>
   (hintsEnabled (settings gs) \<longrightarrow>
      (getHint gs = None \<longleftrightarrow> \<not> (\<exists>i j. hintPairAt gs i j)) \<and>
      ((\<exists>i j. hintPairAt gs i j) \<longrightarrow>
         (\<exists>i j. hintPairAt gs i j \<and>
                getHint gs = Some (position (cards gs ! i), position (cards gs ! j)))) \<and>
      ((\<forall>k < length (cards gs). position (cards gs ! k) = int k) \<or> reachable any_step gs \<longrightarrow>
         (\<exists>i j. hintPairAt gs i j) \<longrightarrow>
         (\<exists>i j. hintPairAt gs i j \<and> getHint gs = Some (int i, int j))))"
proof (intro conjI impI)
  assume "\<not> hintsEnabled (settings gs)"
  then show "getHint gs = None" by (simp add: getHint_def)
next
  assume h: "hintsEnabled (settings gs)"
  show "getHint gs = None \<longleftrightarrow> \<not> (\<exists>i j. hintPairAt gs i j)"
    using getHint_None[OF h] by blast
next
  assume h: "hintsEnabled (settings gs)" and e: "\<exists>i j. hintPairAt gs i j"
  then have "getHint gs \<noteq> None" using getHint_None[OF h] by blast
  then obtain r where "getHint gs = Some r" by blast
  with getHint_Some[OF this]
  show "\<exists>i j. hintPairAt gs i j \<and> getHint gs = Some (position (cards gs ! i), position (cards gs ! j))"
    by auto
next
  assume h: "hintsEnabled (settings gs)" and e: "\<exists>i j. hintPairAt gs i j"
    and w: "(\<forall>k < length (cards gs). position (cards gs ! k) = int k) \<or> reachable any_step gs"
  have pos: "position (cards gs ! k) = int k" if "k < length (cards gs)" for k
    using w that reachable_position[of gs k] by blast
  from h e have "getHint gs \<noteq> None" using getHint_None[OF h] by blast
  then obtain r where r: "getHint gs = Some r" by blast
  from getHint_Some[OF r] obtain i j where
    ij: "hintPairAt gs i j" "r = (position (cards gs ! i), position (cards gs ! j))" by blast
  from ij(1) have "i < length (cards gs)" "j < length (cards gs)" by (simp_all add: hintPairAt_def)
  then have "r = (int i, int j)" using ij(2) pos by simp
  with ij(1) r show "\<exists>i j. hintPairAt gs i j \<and> getHint gs = Some (int i, int j)" by blast
qed

text \<open>
  Claim C9 as stated fails in a new game against the AI: the cards at 0 and 1 are
  available and match, and \<open>getHint\<close> returns \<open>null\<close>, hints being off.
\<close>

theorem C9_hint_counterexample:
  "hintPairAt demoGame 0 1 \<and> getHint demoGame = None"
  by (simp add: hintPairAt_def getHint_def demoGame_cards demoGame_fields available_def)

lemma demoLocal_reachable:
  "reachable any_step demoLocalGame" "reachable any_step demoLocalPlayed"
proof -
  have a: "reachable play_step demoLocalGame" by (simp add: demoLocalGame_def reachable.start)
  then have "reachable play_step demoLocalPlayed"
    unfolding demoLocalPlayed_def by (rule reachable_playFlips)
  with a show "reachable any_step demoLocalGame" "reachable any_step demoLocalPlayed"
    by (simp_all add: reachable_play_any)
qed

theorem C9_hint_when_enabled_witness:
  "reachable any_step demoLocalPlayed \<and> hintsEnabled (settings demoLocalPlayed) \<and>
   isMatched (cards demoLocalPlayed ! 0) \<and> isMatched (cards demoLocalPlayed ! 1) \<and>
   hintPairAt demoLocalPlayed 2 7 \<and> getHint demoLocalPlayed = Some (2, 7) \<and>
   (\<exists>i j. hintPairAt demoLocalPlayed i j \<and> getHint demoLocalPlayed = Some (int i, int j)) \<and>
   \<not> hintsEnabled (settings demoGame) \<and> getHint demoGame = None"
proof -
  have r: "reachable any_step demoLocalPlayed" by (rule demoLocal_reachable(2))
  have h: "hintsEnabled (settings demoLocalPlayed)" by code_simp
  have m: "isMatched (cards demoLocalPlayed ! 0)" "isMatched (cards demoLocalPlayed ! 1)"
    by code_simp+
  have p: "hintPairAt demoLocalPlayed 2 7" by code_simp
  have g: "getHint demoLocalPlayed = Some (2, 7)" by code_simp
  have n: "\<not> hintsEnabled (settings demoGame)" by (simp add: demoGame_fields)
  from C9_hint_when_enabled [of demoLocalPlayed] r h p
  have e: "\<exists>i j. hintPairAt demoLocalPlayed i j \<and> getHint demoLocalPlayed = Some (int i, int j)"
    by blast
  from C9_hint_when_enabled [of demoGame] n have "getHint demoGame = None" by blast
  with r h m p g e n show ?thesis by blast
qed

end
